theory Spec2Isabelle
  imports Complex_Main "HOL-Library.Word" "HOL-Library.Extended_Nat"
begin

section \<open>Data model\<close>

text \<open>
  Files are byte strings stored under path names. Whether two different path names denote
  one file (a link, or another spelling such as \<open>./in.pdf\<close> or the absolute path) and
  whether a file can be created at a path are facts of the operating system, which the
  engine below supplies; a write through one name is recorded under that name only.
  Python's \<open>float\<close> values (scale factors, page dimensions, ratios, the byte budget) are
  read as the real numbers they denote and their arithmetic as exact, so the budget is
  finite (for an infinite budget or a NaN, \<open>int(self.target_size_bytes)\<close> on line 242
  raises). The comparison of an \<open>int\<close> file size with the \<open>float\<close> budget is exact in
  Python, so it is the comparison of the two reals.
\<close>

type_synonym byte = "8 word"
type_synonym bytes = "byte list"
type_synonym path = string
type_synonym filesystem = "path \<rightharpoonup> bytes"
type_synonym rect = "real \<times> real \<times> real \<times> real"

datatype py_exception =
    FileNotFoundError string
  | SameFileError string string
  | ZeroDivisionError
  | Exception string

text \<open>A Pillow image: its mode (\<open>RGB\<close>, \<open>RGBA\<close>, \<open>P\<close>, ...), its size and its pixels.\<close>

record pil_image =
  mode :: string
  width :: int
  height :: int
  pixels :: bytes

text \<open>
  What \<open>doc.extract_image(xref)\<close> returns for an embedded image: the encoded bytes
  and, when the dictionary carries them, the pixel dimensions
  (\<open>base_image.get("width", 0)\<close> reads an absent entry as 0).
\<close>

record base_image =
  image :: bytes
  bi_width :: "int option"
  bi_height :: "int option"

text \<open>
  A page of the source document: \<open>page.rect.width\<close>, \<open>page.rect.height\<close>, the
  entries of \<open>page.get_images()\<close> and the remaining (text and vector) content. Each
  image entry holds the outcome of extracting it: \<open>None\<close> when lines 62 to 66 of
  \<open>pdf_utils.py\<close> raise for this entry.
\<close>

record page =
  rect_width :: real
  rect_height :: real
  get_images :: "base_image option list"
  contents :: bytes

text \<open>
  A page of the rebuilt document: the dimensions passed to \<open>new_page\<close> and the one
  operation the rebuild performs on it, either \<open>insert_image(rect, stream)\<close> or
  \<open>show_pdf_page(rect, pdf_document, page_num)\<close>.
\<close>

datatype page_op = InsertImage rect bytes | ShowPdfPage rect nat

record new_page =
  np_width :: real
  np_height :: real
  np_content :: page_op

text \<open>
  \<open>new_pdf.save(output_path, ...)\<close> either writes the serialized document, or raises,
  in which case it may or may not leave a partial file behind.
\<close>

datatype save_result = Saved bytes | SaveFailed "bytes option"

text \<open>
  The external collaborators (PyMuPDF, Pillow, pathlib, the operating system), as the
  functions the code calls.
  A call that raises returns \<open>None\<close>, or \<open>Inl\<close> of the exception's message where the
  code prints it.
  \<^item> \<open>fitz_open\<close>: \<open>fitz.open(path)\<close> on a file with these bytes, the pages it yields;
  \<^item> \<open>get_pixmap\<close>: \<open>page.get_pixmap(matrix=fitz.Matrix(z, z)).tobytes("ppm")\<close>;
  \<^item> \<open>page_accepted\<close>: whether \<open>new_page\<close> and the call that fills the page go through;
  \<^item> \<open>pdf_save\<close>: \<open>save(path, garbage=4, deflate=True, clean=True)\<close>;
  \<^item> \<open>image_open\<close>, \<open>image_new\<close> (on a white background), \<open>split_last\<close>
    (\<open>image.split()[-1]\<close>), \<open>paste\<close>, \<open>convert\<close>, \<open>resize\<close> (Lanczos) and
    \<open>save_jpeg\<close> (\<open>save(buffer, format='JPEG', quality=..., optimize=True)\<close>): Pillow;
  \<^item> \<open>default_output\<close>: \<open>parent / f"{stem}_compressed{suffix}"\<close> of the input path;
  \<^item> \<open>samefile\<close>: \<open>os.path.samefile(p, q)\<close> for two existing paths that differ as
    strings, true when they are two spellings or links of one file;
  \<^item> \<open>open_wb\<close>: the exception \<open>open(path, 'wb')\<close> raises, if any
    (\<open>FileNotFoundError\<close> when the directory is missing, \<open>PermissionError\<close>, ...).
\<close>

record engine =
  fitz_open :: "bytes \<Rightarrow> page list option"
  get_pixmap :: "page \<Rightarrow> real \<Rightarrow> bytes option"
  page_accepted :: "new_page \<Rightarrow> bool"
  pdf_save :: "new_page list \<Rightarrow> save_result"
  image_open :: "bytes \<Rightarrow> string + pil_image"
  image_new :: "string \<Rightarrow> int \<times> int \<Rightarrow> string + pil_image"
  split_last :: "pil_image \<Rightarrow> string + pil_image"
  paste :: "pil_image \<Rightarrow> pil_image \<Rightarrow> pil_image option \<Rightarrow> string + pil_image"
  convert :: "pil_image \<Rightarrow> string \<Rightarrow> string + pil_image"
  resize :: "pil_image \<Rightarrow> int \<times> int \<Rightarrow> string + pil_image"
  save_jpeg :: "pil_image \<Rightarrow> int \<Rightarrow> string + bytes"
  default_output :: "path \<Rightarrow> path"
  samefile :: "path \<Rightarrow> path \<Rightarrow> bool"
  open_wb :: "path \<Rightarrow> py_exception option"

section \<open>PDFCompressor\<close>

record compressor =
  target_size_bytes :: real
  quality_levels :: "int list"
  scale_factors :: "real list"

definition PDFCompressor :: "real \<Rightarrow> compressor" where
  "PDFCompressor target_size_mb =
     \<lparr> target_size_bytes = target_size_mb * 1024 * 1024,
       quality_levels = [95, 85, 75, 65, 50, 40, 30, 20],
       scale_factors = [1, 9 / 10, 8 / 10, 7 / 10, 6 / 10, 5 / 10, 4 / 10] \<rparr>"

definition get_file_size :: "filesystem \<Rightarrow> path \<Rightarrow> py_exception + nat" where
  "get_file_size fs file_path =
     (case fs file_path of
        None \<Rightarrow> Inl (FileNotFoundError file_path)
      | Some data \<Rightarrow> Inr (length data))"

subsection \<open>compress\_image\<close>

text \<open>Python's \<open>int(x)\<close> on a float truncates towards zero.\<close>

definition py_int :: "real \<Rightarrow> int" where
  "py_int x = (if 0 \<le> x then \<lfloor>x\<rfloor> else \<lceil>x\<rceil>)"

text \<open>Lines 67 to 73: composite onto white, or convert, so that the image is RGB.\<close>

definition to_rgb :: "engine \<Rightarrow> pil_image \<Rightarrow> string + pil_image" where
  "to_rgb E img =
     (if mode img = ''RGBA'' \<or> mode img = ''P'' then
        (case image_new E ''RGB'' (width img, height img) of
           Inl e \<Rightarrow> Inl e
         | Inr background \<Rightarrow>
            (case (if mode img = ''RGBA''
                   then (case split_last E img of Inl e \<Rightarrow> Inl e | Inr m \<Rightarrow> Inr (Some m))
                   else Inr None) of
               Inl e \<Rightarrow> Inl e
             | Inr alpha_mask \<Rightarrow> paste E background img alpha_mask))
      else if mode img \<noteq> ''RGB'' then convert E img ''RGB''
      else Inr img)"

text \<open>Lines 75 to 78: resize when \<open>scale < 1.0\<close>, the new size truncated to integers.\<close>

definition scale_image :: "engine \<Rightarrow> pil_image \<Rightarrow> real \<Rightarrow> string + pil_image" where
  "scale_image E img scale =
     (if scale < 1 then
        resize E img (py_int (real_of_int (width img) * scale),
                      py_int (real_of_int (height img) * scale))
      else Inr img)"

text \<open>The body of the \<open>try\<close> block, lines 64 to 84.\<close>

definition compress_image_try :: "engine \<Rightarrow> bytes \<Rightarrow> int \<Rightarrow> real \<Rightarrow> string + bytes" where
  "compress_image_try E image_data quality scale =
     (case image_open E image_data of
        Inl e \<Rightarrow> Inl e
      | Inr img \<Rightarrow>
         (case to_rgb E img of
            Inl e \<Rightarrow> Inl e
          | Inr rgb \<Rightarrow>
             (case scale_image E rgb scale of
                Inl e \<Rightarrow> Inl e
              | Inr scaled \<Rightarrow> save_jpeg E scaled quality)))"

text \<open>
  The result of a call: the returned value or the exception that left the function,
  with the lines it printed.
\<close>

datatype 'a returned = Returns 'a "string list" | Raises py_exception "string list"

definition compress_image :: "engine \<Rightarrow> bytes \<Rightarrow> int \<Rightarrow> real \<Rightarrow> bytes returned" where
  "compress_image E image_data quality scale =
     (case compress_image_try E image_data quality scale of
        Inr out \<Rightarrow> Returns out []
      | Inl e \<Rightarrow> Returns image_data [''Warning: Could not compress image: '' @ e])"

subsection \<open>Rebuilding a document\<close>

text \<open>
  Lines 124 to 134 and 190 to 200: the PPM bytes of a rendered page are opened with
  Pillow, converted to RGB when needed, and saved as JPEG at the given quality.
\<close>

definition ppm_to_jpeg :: "engine \<Rightarrow> bytes \<Rightarrow> int \<Rightarrow> bytes option" where
  "ppm_to_jpeg E img_data quality =
     (case image_open E img_data of
        Inl e \<Rightarrow> None
      | Inr pil_image \<Rightarrow>
         (case (if mode pil_image \<noteq> ''RGB'' then convert E pil_image ''RGB''
                else Inr pil_image) of
            Inl e \<Rightarrow> None
          | Inr rgb \<Rightarrow>
             (case save_jpeg E rgb quality of Inl e \<Rightarrow> None | Inr out \<Rightarrow> Some out)))"

text \<open>
  \<open>new_pdf.new_page(width, height)\<close> followed by the one call that fills the page;
  \<open>None\<close> when the engine raises on either.
\<close>

definition place_page :: "engine \<Rightarrow> new_page \<Rightarrow> new_page option" where
  "place_page E np = (if page_accepted E np then Some np else None)"

text \<open>The loop body of \<open>compress_pdf_images\<close>, lines 114 to 147.\<close>

definition images_page :: "engine \<Rightarrow> int \<Rightarrow> real \<Rightarrow> nat \<Rightarrow> page \<Rightarrow> new_page option" where
  "images_page E quality scale page_num pg =
     (if get_images pg \<noteq> [] then
        (case get_pixmap E pg scale of
           None \<Rightarrow> None
         | Some ppm \<Rightarrow>
            (case ppm_to_jpeg E ppm quality of
               None \<Rightarrow> None
             | Some img_data \<Rightarrow>
                place_page E
                  \<lparr> np_width = rect_width pg * scale,
                    np_height = rect_height pg * scale,
                    np_content =
                      InsertImage (0, 0, rect_width pg * scale, rect_height pg * scale)
                        img_data \<rparr>))
      else
        place_page E
          \<lparr> np_width = rect_width pg * scale,
            np_height = rect_height pg * scale,
            np_content =
              ShowPdfPage (0, 0, rect_width pg * scale, rect_height pg * scale) page_num \<rparr>)"

text \<open>The loop body of \<open>compress_pdf_rendering\<close>, lines 184 to 208.\<close>

definition rendering_page :: "engine \<Rightarrow> int \<Rightarrow> real \<Rightarrow> nat \<Rightarrow> page \<Rightarrow> new_page option" where
  "rendering_page E dpi scale page_num pg =
     (let zoom = real_of_int dpi / 72 in
      case get_pixmap E pg (zoom * scale) of
        None \<Rightarrow> None
      | Some ppm \<Rightarrow>
         (case ppm_to_jpeg E ppm 85 of
            None \<Rightarrow> None
          | Some img_data \<Rightarrow>
             place_page E
               \<lparr> np_width = rect_width pg * scale,
                 np_height = rect_height pg * scale,
                 np_content =
                   InsertImage (0, 0, rect_width pg * scale, rect_height pg * scale)
                     img_data \<rparr>))"

text \<open>
  \<open>for page_num in range(pdf_document.page_count)\<close>: the pages in order, from
  \<open>page_num\<close> on; the first page that raises ends the rebuild.
\<close>

fun build_pages :: "(nat \<Rightarrow> page \<Rightarrow> new_page option) \<Rightarrow> nat \<Rightarrow> page list \<Rightarrow> new_page list option" where
  "build_pages body page_num [] = Some []"
| "build_pages body page_num (pg # rest) =
     (case body page_num pg of
        None \<Rightarrow> None
      | Some np \<Rightarrow>
         (case build_pages body (Suc page_num) rest of
            None \<Rightarrow> None
          | Some nps \<Rightarrow> Some (np # nps)))"

text \<open>
  Saving the rebuilt document to \<open>output_path\<close>, and the value the enclosing
  \<open>try\<close> returns: \<open>True\<close> after a completed save, \<open>False\<close> when it raised.
\<close>

definition save_to :: "engine \<Rightarrow> filesystem \<Rightarrow> path \<Rightarrow> new_page list \<Rightarrow> bool \<times> filesystem" where
  "save_to E fs output_path new_pdf =
     (case pdf_save E new_pdf of
        Saved out \<Rightarrow> (True, fs(output_path \<mapsto> out))
      | SaveFailed None \<Rightarrow> (False, fs)
      | SaveFailed (Some partial) \<Rightarrow> (False, fs(output_path \<mapsto> partial)))"

definition compress_pdf_images ::
  "engine \<Rightarrow> filesystem \<Rightarrow> path \<Rightarrow> path \<Rightarrow> int \<Rightarrow> real \<Rightarrow> bool \<times> filesystem" where
  "compress_pdf_images E fs input_path output_path quality scale =
     (case fs input_path of
        None \<Rightarrow> (False, fs)
      | Some data \<Rightarrow>
         (case fitz_open E data of
            None \<Rightarrow> (False, fs)
          | Some pdf_document \<Rightarrow>
             (case build_pages (images_page E quality scale) 0 pdf_document of
                None \<Rightarrow> (False, fs)
              | Some new_pdf \<Rightarrow> save_to E fs output_path new_pdf)))"

definition compress_pdf_rendering ::
  "engine \<Rightarrow> filesystem \<Rightarrow> path \<Rightarrow> path \<Rightarrow> int \<Rightarrow> real \<Rightarrow> bool \<times> filesystem" where
  "compress_pdf_rendering E fs input_path output_path dpi scale =
     (case fs input_path of
        None \<Rightarrow> (False, fs)
      | Some data \<Rightarrow>
         (case fitz_open E data of
            None \<Rightarrow> (False, fs)
          | Some pdf_document \<Rightarrow>
             (case build_pages (rendering_page E dpi scale) 0 pdf_document of
                None \<Rightarrow> (False, fs)
              | Some new_pdf \<Rightarrow> save_to E fs output_path new_pdf)))"

subsection \<open>compress\_pdf\<close>

text \<open>
  One rebuild attempt: its parameters and the size measured for it (\<open>None\<close> when the
  rebuild returned \<open>False\<close>). The list of attempts of a run is what the function reports
  line by line while it searches.
\<close>

datatype candidate = ImageCandidate int real | RenderCandidate int real

record attempt =
  cand :: candidate
  measured :: "nat option"

text \<open>The local variables of \<open>compress_pdf\<close> during the search, and the files.\<close>

record search =
  files :: filesystem
  best_result :: "path option"
  best_size :: enat
  attempts :: "attempt list"

text \<open>Truth value of an \<open>Optional[str]\<close>: \<open>None\<close> and the empty string are false.\<close>

definition truthy :: "path option \<Rightarrow> bool" where
  "truthy r = (case r of None \<Rightarrow> False | Some p \<Rightarrow> p \<noteq> [])"

text \<open>Lines 272 to 274 (and 299 to 301): remove the temp file unless it is the best result.\<close>

definition cleanup :: "path \<Rightarrow> search \<Rightarrow> search" where
  "cleanup temp_output st =
     (if files st temp_output \<noteq> None \<and> Some temp_output \<noteq> best_result st
      then st\<lparr>files := (files st)(temp_output := None)\<rparr>
      else st)"

text \<open>
  The inner loop over the scale factors, lines 258 to 274 and 285 to 301. The two phases
  run the same loop; they differ in the rebuild they call (\<open>build\<close>), in the name of the
  temp file, and in how an attempt is reported (\<open>mk\<close>). \<open>break\<close> is the branch without
  a recursive call.
\<close>

fun scale_loop ::
  "compressor \<Rightarrow> (filesystem \<Rightarrow> real \<Rightarrow> bool \<times> filesystem) \<Rightarrow> (real \<Rightarrow> candidate) \<Rightarrow> path \<Rightarrow>
   real list \<Rightarrow> search \<Rightarrow> py_exception option \<times> search" where
  "scale_loop C build mk temp_output [] st = (None, st)"
| "scale_loop C build mk temp_output (scale # rest) st =
     (let r = build (files st) scale in
      if fst r then
        (case get_file_size (snd r) temp_output of
           Inl e \<Rightarrow>
             (Some e, st\<lparr>files := snd r,
                         attempts := attempts st @ [\<lparr>cand = mk scale, measured = None\<rparr>]\<rparr>)
         | Inr current_size \<Rightarrow>
             (let st1 = st\<lparr>files := snd r,
                            attempts := attempts st @
                              [\<lparr>cand = mk scale, measured = Some current_size\<rparr>]\<rparr> in
              if real current_size \<le> target_size_bytes C then
                (None,
                 if enat current_size < best_size st1 \<or> best_result st1 = None
                 then st1\<lparr>best_result := Some temp_output, best_size := enat current_size\<rparr>
                 else st1)
              else scale_loop C build mk temp_output rest (cleanup temp_output st1)))
      else
        scale_loop C build mk temp_output rest
          (cleanup temp_output
             (st\<lparr>files := snd r,
                  attempts := attempts st @ [\<lparr>cand = mk scale, measured = None\<rparr>]\<rparr>)))"

text \<open>
  The outer loop, lines 257 to 277 and 284 to 304, over the quality levels in phase 1 and
  over the DPI levels in phase 2; \<open>if best_result: break\<close> after each inner loop.
\<close>

fun grid_loop ::
  "compressor \<Rightarrow> (int \<Rightarrow> filesystem \<Rightarrow> real \<Rightarrow> bool \<times> filesystem) \<Rightarrow> (int \<Rightarrow> real \<Rightarrow> candidate) \<Rightarrow>
   path \<Rightarrow> int list \<Rightarrow> search \<Rightarrow> py_exception option \<times> search" where
  "grid_loop C build mk temp_output [] st = (None, st)"
| "grid_loop C build mk temp_output (level # rest) st =
     (case scale_loop C (build level) (mk level) temp_output (scale_factors C) st of
        (Some e, st1) \<Rightarrow> (Some e, st1)
      | (None, st1) \<Rightarrow>
          if truthy (best_result st1) then (None, st1)
          else grid_loop C build mk temp_output rest st1)"

definition phase1 :: "engine \<Rightarrow> compressor \<Rightarrow> path \<Rightarrow> path \<Rightarrow> search \<Rightarrow> py_exception option \<times> search" where
  "phase1 E C input_path output_path st =
     grid_loop C
       (\<lambda>quality fs scale.
          compress_pdf_images E fs input_path (output_path @ ''.temp'') quality scale)
       ImageCandidate (output_path @ ''.temp'') (quality_levels C) st"

definition dpi_levels :: "int list" where
  "dpi_levels = [150, 120, 100, 80, 60, 50]"

definition phase2 :: "engine \<Rightarrow> compressor \<Rightarrow> path \<Rightarrow> path \<Rightarrow> search \<Rightarrow> py_exception option \<times> search" where
  "phase2 E C input_path output_path st =
     grid_loop C
       (\<lambda>dpi fs scale.
          compress_pdf_rendering E fs input_path (output_path @ ''.temp2'') dpi scale)
       RenderCandidate (output_path @ ''.temp2'') dpi_levels st"

text \<open>
  \<open>shutil.copy2(src, dst)\<close> for a destination that is not a directory. It raises
  \<open>SameFileError\<close> when \<open>os.path.samefile(src, dst)\<close> holds: the two paths are the same
  string, or two names of one file. Otherwise it opens the source for reading and the
  destination for writing, either of which may raise, and writes the source's bytes.
  \<open>shutil.move\<close> renames, replacing the destination.
\<close>

definition copy2 :: "engine \<Rightarrow> filesystem \<Rightarrow> path \<Rightarrow> path \<Rightarrow> py_exception + filesystem" where
  "copy2 E fs src dst =
     (case fs src of
        None \<Rightarrow> Inl (FileNotFoundError src)
      | Some data \<Rightarrow>
          if src = dst \<or> samefile E src dst then Inl (SameFileError src dst)
          else (case open_wb E dst of
                  Some e \<Rightarrow> Inl e
                | None \<Rightarrow> Inr (fs(dst \<mapsto> data))))"

definition move :: "filesystem \<Rightarrow> path \<Rightarrow> path \<Rightarrow> py_exception + filesystem" where
  "move fs src dst =
     (case fs src of
        None \<Rightarrow> Inl (FileNotFoundError src)
      | Some data \<Rightarrow> Inr ((fs(src := None))(dst \<mapsto> data)))"

text \<open>Lines 235 to 238: the output path, derived from the input path when none is given.\<close>

definition chosen_output :: "engine \<Rightarrow> path \<Rightarrow> path option \<Rightarrow> path" where
  "chosen_output E input_path output_path_arg =
     (case output_path_arg of None \<Rightarrow> default_output E input_path | Some p \<Rightarrow> p)"

text \<open>Lines 252 and 253: no best result yet, \<open>best_size = float('inf')\<close>.\<close>

definition search0 :: "filesystem \<Rightarrow> search" where
  "search0 fs = \<lparr>files = fs, best_result = None, best_size = \<infinity>, attempts = []\<rparr>"

text \<open>
  What a call of \<open>compress_pdf\<close> leaves: the returned path or the exception raised, the
  files afterwards, and the rebuild attempts it made, in order. The progress lines the
  function prints are formatted sizes and are left out.
\<close>

record run =
  outcome :: "py_exception + path"
  world :: filesystem
  trace :: "attempt list"

definition exhausted :: py_exception where
  "exhausted = Exception ''Could not compress PDF to target size. Try a larger target size.''"

text \<open>Lines 306 to 322.\<close>

definition finalize :: "nat \<Rightarrow> path \<Rightarrow> search \<Rightarrow> run" where
  "finalize original_size output_path st =
     (if truthy (best_result st) then
        (case (case best_result st of
                 None \<Rightarrow> Inr (files st)
               | Some best \<Rightarrow>
                   if best \<noteq> output_path then move (files st) best output_path
                   else Inr (files st)) of
           Inl e \<Rightarrow> \<lparr>outcome = Inl e, world = files st, trace = attempts st\<rparr>
         | Inr fs \<Rightarrow>
            (case get_file_size fs output_path of
               Inl e \<Rightarrow> \<lparr>outcome = Inl e, world = fs, trace = attempts st\<rparr>
             | Inr final_size \<Rightarrow>
                 if original_size = 0
                 then \<lparr>outcome = Inl ZeroDivisionError, world = fs, trace = attempts st\<rparr>
                 else \<lparr>outcome = Inr output_path, world = fs, trace = attempts st\<rparr>))
      else \<lparr>outcome = Inl exhausted, world = files st, trace = attempts st\<rparr>)"

definition compress_pdf :: "engine \<Rightarrow> compressor \<Rightarrow> filesystem \<Rightarrow> path \<Rightarrow> path option \<Rightarrow> run" where
  "compress_pdf E C fs input_path output_path_arg =
     (if fs input_path = None then
        \<lparr>outcome = Inl (FileNotFoundError (''Input file not found: '' @ input_path)),
         world = fs, trace = []\<rparr>
      else
        (let output_path = chosen_output E input_path output_path_arg in
         case get_file_size fs input_path of
           Inl e \<Rightarrow> \<lparr>outcome = Inl e, world = fs, trace = []\<rparr>
         | Inr original_size \<Rightarrow>
             if real original_size \<le> target_size_bytes C then
               (case copy2 E fs input_path output_path of
                  Inl e \<Rightarrow> \<lparr>outcome = Inl e, world = fs, trace = []\<rparr>
                | Inr fs1 \<Rightarrow> \<lparr>outcome = Inr output_path, world = fs1, trace = []\<rparr>)
             else
               (case phase1 E C input_path output_path (search0 fs) of
                  (Some e, st1) \<Rightarrow> \<lparr>outcome = Inl e, world = files st1, trace = attempts st1\<rparr>
                | (None, st1) \<Rightarrow>
                    (case (if \<not> truthy (best_result st1)
                           then phase2 E C input_path output_path st1
                           else (None, st1)) of
                       (Some e, st2) \<Rightarrow>
                         \<lparr>outcome = Inl e, world = files st2, trace = attempts st2\<rparr>
                     | (None, st2) \<Rightarrow> finalize original_size output_path st2))))"

section \<open>PDFAnalyzer\<close>

record analysis =
  page_count :: nat
  total_images :: nat
  image_sizes :: "nat list"
  text_heavy :: bool
  image_heavy :: bool
  average_dpi :: real
  file_size :: nat

text \<open>
  The two shapes of dictionary \<open>analyze_pdf\<close> returns: the analysis, or
  \<open>{'error': str(e)}\<close> (the message itself is not modelled).
\<close>

datatype analysis_result = Analysis analysis | AnalysisError

text \<open>The accumulators of the loop, lines 37, 38 and 45 to 48.\<close>

record totals =
  acc_total_images :: nat
  acc_image_sizes :: "nat list"
  total_image_area :: int
  total_page_area :: real
  total_dpi :: real
  dpi_count :: nat

definition totals0 :: totals where
  "totals0 = \<lparr> acc_total_images = 0, acc_image_sizes = [], total_image_area = 0,
               total_page_area = 0, total_dpi = 0, dpi_count = 0 \<rparr>"

text \<open>\<open>for img in images\<close>, lines 59 to 83; an entry that raises is skipped.\<close>

fun scan_images :: "base_image option list \<Rightarrow> totals \<Rightarrow> totals" where
  "scan_images [] t = t"
| "scan_images (None # imgs) t = scan_images imgs t"
| "scan_images (Some base_image # imgs) t =
     (let t1 = t\<lparr>acc_image_sizes := acc_image_sizes t @ [length (image base_image)]\<rparr>;
          img_width = (case bi_width base_image of None \<Rightarrow> 0 | Some w \<Rightarrow> w);
          img_height = (case bi_height base_image of None \<Rightarrow> 0 | Some h \<Rightarrow> h)
      in scan_images imgs
           (if img_width > 0 \<and> img_height > 0 then
              t1\<lparr>total_dpi := total_dpi t1 + real_of_int (max img_width img_height) / 8.5,
                 dpi_count := dpi_count t1 + 1,
                 total_image_area := total_image_area t1 + img_width * img_height\<rparr>
            else t1))"

text \<open>\<open>for page_num in range(doc.page_count)\<close>, lines 50 to 83.\<close>

fun scan_pages :: "page list \<Rightarrow> totals \<Rightarrow> totals" where
  "scan_pages [] t = t"
| "scan_pages (pg # rest) t =
     (let page_area = rect_width pg * rect_height pg;
          t1 = t\<lparr>total_page_area := total_page_area t + page_area,
                 acc_total_images := acc_total_images t + length (get_images pg)\<rparr>
      in scan_pages rest (scan_images (get_images pg) t1))"

text \<open>Lines 85 to 90, on the accumulated totals.\<close>

definition image_ratio :: "page list \<Rightarrow> totals \<Rightarrow> real" where
  "image_ratio doc t =
     (if total_page_area t > 0
      then real_of_int (total_image_area t) / (total_page_area t * real (length doc))
      else 0)"

definition analyze_pdf :: "engine \<Rightarrow> filesystem \<Rightarrow> path \<Rightarrow> analysis_result" where
  "analyze_pdf E fs file_path =
     (case fs file_path of
        None \<Rightarrow> AnalysisError
      | Some data \<Rightarrow>
         (case fitz_open E data of
            None \<Rightarrow> AnalysisError
          | Some doc \<Rightarrow>
             (let t = scan_pages doc totals0;
                  a = \<lparr> page_count = length doc,
                        total_images = acc_total_images t,
                        image_sizes = acc_image_sizes t,
                        text_heavy = False,
                        image_heavy = False,
                        average_dpi = 0,
                        file_size = length data \<rparr>
              in Analysis
                   (if total_image_area t > 0 then
                      a\<lparr>average_dpi :=
                          (if dpi_count t > 0 then total_dpi t / real (dpi_count t) else 0),
                        image_heavy := image_ratio doc t > 0.3,
                        text_heavy := image_ratio doc t < 0.1\<rparr>
                    else a))))"

definition recommend_strategy :: "analysis_result \<Rightarrow> string" where
  "recommend_strategy r =
     (case r of
        AnalysisError \<Rightarrow> ''basic''
      | Analysis a \<Rightarrow>
          if image_heavy a then
            (if average_dpi a > 200 then ''aggressive_image_compression''
             else ''moderate_image_compression'')
          else if text_heavy a then ''dpi_reduction''
          else ''balanced'')"

section \<open>Notions used to state the properties\<close>

text \<open>An attempt meets the target when it was measured and its size is within the budget.\<close>

definition met_target :: "compressor \<Rightarrow> attempt \<Rightarrow> bool" where
  "met_target C a =
     (case measured a of None \<Rightarrow> False | Some n \<Rightarrow> real n \<le> target_size_bytes C)"

text \<open>The enumeration order of a phase: levels in the outer loop, scales in the inner one.\<close>

definition grid :: "(int \<Rightarrow> real \<Rightarrow> candidate) \<Rightarrow> int list \<Rightarrow> real list \<Rightarrow> candidate list" where
  "grid mk levels scales = concat (map (\<lambda>level. map (mk level) scales) levels)"

text \<open>
  A list of attempts follows the enumeration \<open>cs\<close> and stops at the first success: it
  tries the candidates of \<open>cs\<close> in order, none but possibly the last attempt meets the
  target, and it covers all of \<open>cs\<close> unless its last attempt meets the target.
\<close>

definition stops_at_first :: "compressor \<Rightarrow> candidate list \<Rightarrow> attempt list \<Rightarrow> bool" where
  "stops_at_first C cs tr \<longleftrightarrow>
     map cand tr = take (length tr) cs \<and>
     (\<forall>a \<in> set (butlast tr). \<not> met_target C a) \<and>
     (tr = [] \<or> \<not> met_target C (last tr) \<longrightarrow> length tr = length cs)"

definition hit :: "compressor \<Rightarrow> attempt list \<Rightarrow> bool" where
  "hit C tr \<longleftrightarrow> tr \<noteq> [] \<and> met_target C (last tr)"

text \<open>
  What the loops need of a rebuild: it writes no file but its output, and it has written
  that one when it returns \<open>True\<close>.
\<close>

definition writes_only :: "(filesystem \<Rightarrow> real \<Rightarrow> bool \<times> filesystem) \<Rightarrow> path \<Rightarrow> bool" where
  "writes_only build temp_output \<longleftrightarrow>
     (\<forall>fs s. (fst (build fs s) \<longrightarrow> snd (build fs s) temp_output \<noteq> None) \<and>
             (\<forall>p. p \<noteq> temp_output \<longrightarrow> snd (build fs s) p = fs p))"

text \<open>
  The state \<open>st'\<close> a loop over the candidates \<open>cs\<close> reaches from \<open>st\<close>: the new
  attempts stop at the first success, only the temp file changed, and either the last
  attempt met the target and its file is the best result, or there is no best result and
  the temp file is gone.
\<close>

definition loop_post :: "compressor \<Rightarrow> path \<Rightarrow> candidate list \<Rightarrow> search \<Rightarrow> search \<Rightarrow> bool" where
  "loop_post C temp_output cs st st' \<longleftrightarrow>
     (\<exists>tr. attempts st' = attempts st @ tr \<and> stops_at_first C cs tr \<and>
        (\<forall>p. p \<noteq> temp_output \<longrightarrow> files st' p = files st p) \<and>
        (if hit C tr
         then best_result st' = Some temp_output \<and>
              (\<exists>b. files st' temp_output = Some b \<and> measured (last tr) = Some (length b))
         else best_result st' = None \<and>
              (cs \<noteq> [] \<longrightarrow> files st' temp_output = None) \<and>
              (cs = [] \<longrightarrow> files st' = files st)))"

text \<open>
  The size of the file a rebuild of the document \<open>data\<close> saves, \<open>None\<close> when the
  rebuild fails: what \<open>compress_pdf_images\<close> and \<open>compress_pdf_rendering\<close> write for a
  candidate, as a function of the input's bytes and the candidate alone.
\<close>

definition saved_size :: "engine \<Rightarrow> (nat \<Rightarrow> page \<Rightarrow> new_page option) \<Rightarrow> bytes \<Rightarrow> nat option" where
  "saved_size E body data =
     (case fitz_open E data of
        None \<Rightarrow> None
      | Some doc \<Rightarrow>
         (case build_pages body 0 doc of
            None \<Rightarrow> None
          | Some new_pdf \<Rightarrow>
             (case pdf_save E new_pdf of Saved out \<Rightarrow> Some (length out) | SaveFailed x \<Rightarrow> None)))"

fun candidate_size :: "engine \<Rightarrow> bytes \<Rightarrow> candidate \<Rightarrow> nat option" where
  "candidate_size E data (ImageCandidate quality scale) =
     saved_size E (images_page E quality scale) data"
| "candidate_size E data (RenderCandidate dpi scale) =
     saved_size E (rendering_page E dpi scale) data"

definition within_target :: "compressor \<Rightarrow> nat option \<Rightarrow> bool" where
  "within_target C n = (case n of None \<Rightarrow> False | Some k \<Rightarrow> real k \<le> target_size_bytes C)"

text \<open>
  A rebuild reports the size \<open>sz\<close>: whenever the input file holds \<open>data\<close>, it returns
  \<open>True\<close> and leaves a file of that size at its output, or returns \<open>False\<close> where
  \<open>sz\<close> is \<open>None\<close>.
\<close>

definition reports ::
  "(filesystem \<Rightarrow> real \<Rightarrow> bool \<times> filesystem) \<Rightarrow> path \<Rightarrow> bytes \<Rightarrow> path \<Rightarrow>
   (real \<Rightarrow> nat option) \<Rightarrow> bool" where
  "reports build inp data temp_output sz \<longleftrightarrow>
     (\<forall>fs s. fs inp = Some data \<longrightarrow>
        (if fst (build fs s)
         then \<exists>b. snd (build fs s) temp_output = Some b \<and> sz s = Some (length b)
         else sz s = None))"

definition strategy_labels :: "string set" where
  "strategy_labels = {''aggressive_image_compression'', ''moderate_image_compression'',
                      ''dpi_reduction'', ''balanced''}"

section \<open>A small engine to run the code on\<close>

text \<open>
  A file describes one page per byte, up to the first byte 255 (the rest is padding): the
  byte 0 is a page of text, a byte \<open>b > 0\<close> a page holding one image of \<open>b\<close> by \<open>b\<close>
  pixels. Every page is 100 by 100 points. A page rendered at zoom \<open>z\<close> has
  \<open>\<lfloor>10 z\<rfloor>\<close> bytes, and its JPEG at quality \<open>q\<close> has \<open>q\<close> bytes for each of them.
  A path and the same path after \<open>./\<close> name one file, and every file can be created.
\<close>

definition demo_page :: "byte \<Rightarrow> page" where
  "demo_page b =
     \<lparr> rect_width = 100, rect_height = 100,
       get_images = (if b = 0 then []
                     else [Some \<lparr>image = [b], bi_width = Some (uint b), bi_height = Some (uint b)\<rparr>]),
       contents = [b] \<rparr>"

definition demo_page_bytes :: "new_page \<Rightarrow> bytes" where
  "demo_page_bytes np = (case np_content np of InsertImage r b \<Rightarrow> b | ShowPdfPage r n \<Rightarrow> [0])"

definition demo_engine :: engine where
  "demo_engine =
     \<lparr> fitz_open = (\<lambda>data. let described = takeWhile (\<lambda>b. b \<noteq> 255) data in
                      if described = [] then None else Some (map demo_page described)),
       get_pixmap = (\<lambda>pg zoom. Some (replicate (nat \<lfloor>10 * zoom\<rfloor>) 1)),
       page_accepted = (\<lambda>np. True),
       pdf_save = (\<lambda>nps. Saved (concat (map demo_page_bytes nps))),
       image_open = (\<lambda>b. if b = [] then Inl ''cannot identify image file''
                          else Inr \<lparr>mode = ''RGB'', width = int (length b), height = 1, pixels = b\<rparr>),
       image_new = (\<lambda>m sz. Inr \<lparr>mode = m, width = fst sz, height = snd sz, pixels = []\<rparr>),
       split_last = (\<lambda>img. Inr img),
       paste = (\<lambda>bg img msk. Inr (bg\<lparr>pixels := pixels img\<rparr>)),
       convert = (\<lambda>img m. Inr (img\<lparr>mode := m\<rparr>)),
       resize = (\<lambda>img sz. Inr (img\<lparr>width := fst sz, height := snd sz\<rparr>)),
       save_jpeg = (\<lambda>img quality. Inr (replicate (length (pixels img) * nat quality) 0)),
       default_output = (\<lambda>p. p @ ''_compressed''),
       samefile = (\<lambda>p q. p = ''./'' @ q \<or> q = ''./'' @ p),
       open_wb = (\<lambda>p. None) \<rparr>"

text \<open>A file of 1000 bytes holding one page with one image.\<close>

definition demo_input :: bytes where
  "demo_input = 70 # replicate 999 255"

definition demo_fs :: filesystem where
  "demo_fs = [''in.pdf'' \<mapsto> demo_input]"

text \<open>The compressor whose target is \<open>n\<close> bytes.\<close>

definition demo_compressor :: "real \<Rightarrow> compressor" where
  "demo_compressor n = PDFCompressor (n / 1048576)"

section \<open>The search loops\<close>

subsection \<open>Attempts that stop at the first success\<close>

lemma stops_nil: "stops_at_first C [] []"
  by (simp add: stops_at_first_def)

lemma stops_hit_here:
  "cand a = c \<Longrightarrow> met_target C a \<Longrightarrow> stops_at_first C (c # cs) [a]"
  by (simp add: stops_at_first_def)

lemma stops_miss_here:
  "cand a = c \<Longrightarrow> \<not> met_target C a \<Longrightarrow> stops_at_first C cs tr \<Longrightarrow> stops_at_first C (c # cs) (a # tr)"
  by (auto simp: stops_at_first_def split: if_splits)

lemma hit_Cons: "\<not> met_target C a \<Longrightarrow> hit C (a # tr) = hit C tr"
  by (auto simp: hit_def)

lemma no_hit_all: "stops_at_first C cs tr \<Longrightarrow> \<not> hit C tr \<Longrightarrow> (\<forall>a\<in>set tr. \<not> met_target C a) \<and> map cand tr = cs"
  apply (cases tr rule: rev_cases)
  apply (auto simp: stops_at_first_def hit_def)
  done

lemma take_len_le: "map f tr = take (length tr) row \<Longrightarrow> length tr \<le> length row"
proof -
  assume a: "map f tr = take (length tr) row"
  have "length (map f tr) = length (take (length tr) row)" using a by simp
  then show ?thesis by simp
qed

lemma stops_append_hit:
  "stops_at_first C row tr \<Longrightarrow> hit C tr \<Longrightarrow> stops_at_first C (row @ rest) tr"
  using take_len_le[of cand tr row]
  by (auto simp: stops_at_first_def hit_def)

lemma stops_append_miss:
  assumes "stops_at_first C row tr1" "\<not> hit C tr1" "stops_at_first C rest tr2"
  shows "stops_at_first C (row @ rest) (tr1 @ tr2)"
proof -
  from no_hit_all[OF assms(1,2)] have miss: "\<forall>a\<in>set tr1. \<not> met_target C a"
    and row: "map cand tr1 = row" by auto
  from row have len: "length tr1 = length row" by auto
  have m: "map cand (tr1 @ tr2) = take (length (tr1 @ tr2)) (row @ rest)"
    using assms(3) row len by (simp add: stops_at_first_def)
  have b: "\<forall>a \<in> set (butlast (tr1 @ tr2)). \<not> met_target C a"
    using miss assms(3) by (auto simp: stops_at_first_def butlast_append dest: in_set_butlastD)
  have l: "tr1 @ tr2 = [] \<or> \<not> met_target C (last (tr1 @ tr2)) \<longrightarrow>
           length (tr1 @ tr2) = length (row @ rest)"
    using assms(3) len by (cases "tr2 = []") (auto simp: stops_at_first_def)
  show ?thesis unfolding stops_at_first_def using m b l by blast
qed


lemma loop_post_nil: "best_result st = None \<Longrightarrow> loop_post C t [] st st"
  by (auto simp: loop_post_def stops_nil hit_def intro!: exI[of _ "[]"])

lemma loop_post_hit:
  assumes "attempts st' = attempts st @ [a]" "cand a = c" "met_target C a"
    "best_result st' = Some t" "files st' t = Some b" "measured a = Some (length b)"
    "\<forall>p. p \<noteq> t \<longrightarrow> files st' p = files st p"
  shows "loop_post C t (c # cs) st st'"
  unfolding loop_post_def
  using assms by (intro exI[of _ "[a]"]) (auto simp: hit_def stops_hit_here)

lemma loop_post_miss:
  assumes "attempts st2 = attempts st @ [a]" "cand a = c" "\<not> met_target C a"
    "files st2 t = None" "\<forall>p. p \<noteq> t \<longrightarrow> files st2 p = files st p"
    "loop_post C t cs st2 st'"
  shows "loop_post C t (c # cs) st st'"
proof -
  from assms(6) obtain tr where tr: "attempts st' = attempts st2 @ tr" "stops_at_first C cs tr"
    "\<forall>p. p \<noteq> t \<longrightarrow> files st' p = files st2 p"
    "if hit C tr
         then best_result st' = Some t \<and>
              (\<exists>b. files st' t = Some b \<and> measured (last tr) = Some (length b))
         else best_result st' = None \<and>
              (cs \<noteq> [] \<longrightarrow> files st' t = None) \<and>
              (cs = [] \<longrightarrow> files st' = files st2)"
    unfolding loop_post_def by blast
  have 1: "attempts st' = attempts st @ (a # tr)" using tr(1) assms(1) by simp
  have 2: "stops_at_first C (c # cs) (a # tr)" using stops_miss_here assms(2,3) tr(2) by blast
  have 3: "\<forall>p. p \<noteq> t \<longrightarrow> files st' p = files st p" using tr(3) assms(5) by simp
  have h: "hit C (a # tr) = hit C tr" using assms(3) by (rule hit_Cons)
  have 4: "if hit C (a # tr)
         then best_result st' = Some t \<and>
              (\<exists>b. files st' t = Some b \<and> measured (last (a # tr)) = Some (length b))
         else best_result st' = None \<and>
              (c # cs \<noteq> [] \<longrightarrow> files st' t = None) \<and>
              (c # cs = [] \<longrightarrow> files st' = files st)"
  proof (cases "hit C tr")
    case True
    then have "tr \<noteq> []" by (simp add: hit_def)
    with True tr(4) h show ?thesis by simp
  next
    case False
    with tr(4) h assms(4) show ?thesis by (cases "cs = []") auto
  qed
  show ?thesis unfolding loop_post_def using 1 2 3 4 by blast
qed

lemma scale_loop_spec:
  assumes "writes_only build t" "best_result st = None"
  shows "\<exists>st'. scale_loop C build mk t ss st = (None, st') \<and> loop_post C t (map mk ss) st st'"
  using assms(2)
proof (induction ss arbitrary: st)
  case Nil
  then show ?case by (simp add: loop_post_nil)
next
  case (Cons s ss)
  define r where "r = build (files st) s"
  have frame: "\<forall>p. p \<noteq> t \<longrightarrow> snd r p = files st p"
    using assms(1) by (simp add: writes_only_def r_def)
  show ?case
  proof (cases "fst r")
    case True
    have "snd r t \<noteq> None"
      using assms(1) True unfolding writes_only_def r_def by blast
    then obtain b where b: "snd r t = Some b" by blast
    define a where "a = \<lparr>cand = mk s, measured = Some (length b)\<rparr>"
    define st1 where "st1 = st\<lparr>files := snd r, attempts := attempts st @ [a]\<rparr>"
    show ?thesis
    proof (cases "real (length b) \<le> target_size_bytes C")
      case le: True
      define st' where "st' = st1\<lparr>best_result := Some t, best_size := enat (length b)\<rparr>"
      have run: "scale_loop C build mk t (s # ss) st = (None, st')"
        using True b le Cons.prems
        by (simp add: r_def[symmetric] get_file_size_def st'_def st1_def a_def Let_def)
      have "loop_post C t (mk s # map mk ss) st st'"
        by (rule loop_post_hit[where a=a and b=b])
           (use le frame b in \<open>auto simp: st'_def st1_def a_def met_target_def\<close>)
      with run show ?thesis by simp
    next
      case gt: False
      define st2 where "st2 = cleanup t st1"
      have st2: "best_result st2 = None" "attempts st2 = attempts st @ [a]" "files st2 t = None"
        "\<forall>p. p \<noteq> t \<longrightarrow> files st2 p = files st p"
        using Cons.prems frame b by (auto simp: st2_def st1_def cleanup_def)
      from Cons.IH[OF st2(1)] obtain st' where
        st': "scale_loop C build mk t ss st2 = (None, st')" "loop_post C t (map mk ss) st2 st'"
        by blast
      have run: "scale_loop C build mk t (s # ss) st = (None, st')"
        using True b gt st'(1)
        by (simp add: r_def[symmetric] get_file_size_def st2_def st1_def a_def Let_def)
      have "loop_post C t (mk s # map mk ss) st st'"
        by (rule loop_post_miss[where a=a and ?st2.0=st2])
           (use gt st2 st'(2) in \<open>auto simp: a_def met_target_def\<close>)
      with run show ?thesis by simp
    qed
  next
    case False
    define a where "a = \<lparr>cand = mk s, measured = None\<rparr>"
    define st2 where "st2 = cleanup t (st\<lparr>files := snd r, attempts := attempts st @ [a]\<rparr>)"
    have st2: "best_result st2 = None" "attempts st2 = attempts st @ [a]" "files st2 t = None"
      "\<forall>p. p \<noteq> t \<longrightarrow> files st2 p = files st p"
      using Cons.prems frame by (auto simp: st2_def cleanup_def)
    from Cons.IH[OF st2(1)] obtain st' where
      st': "scale_loop C build mk t ss st2 = (None, st')" "loop_post C t (map mk ss) st2 st'"
      by blast
    have run: "scale_loop C build mk t (s # ss) st = (None, st')"
      using False st'(1)
      by (simp add: r_def[symmetric] st2_def a_def Let_def)
    have "loop_post C t (mk s # map mk ss) st st'"
      by (rule loop_post_miss[where a=a and ?st2.0=st2])
         (use st2 st'(2) in \<open>auto simp: a_def met_target_def\<close>)
    with run show ?thesis by simp
  qed
qed


lemma hit_append: "\<not> hit C tr1 \<Longrightarrow> hit C (tr1 @ tr2) = hit C tr2"
  by (cases "tr2 = []") (auto simp: hit_def)

lemma loop_post_append_hit:
  assumes "loop_post C t row st st1" "best_result st1 \<noteq> None"
  shows "loop_post C t (row @ rest) st st1"
proof -
  from assms(1) obtain tr where tr: "attempts st1 = attempts st @ tr" "stops_at_first C row tr"
    "\<forall>p. p \<noteq> t \<longrightarrow> files st1 p = files st p"
    "if hit C tr
         then best_result st1 = Some t \<and>
              (\<exists>b. files st1 t = Some b \<and> measured (last tr) = Some (length b))
         else best_result st1 = None \<and>
              (row \<noteq> [] \<longrightarrow> files st1 t = None) \<and>
              (row = [] \<longrightarrow> files st1 = files st)"
    unfolding loop_post_def by blast
  from tr(4) assms(2) have h: "hit C tr" by (auto split: if_splits)
  have "stops_at_first C (row @ rest) tr" using tr(2) h by (rule stops_append_hit)
  with tr h show ?thesis unfolding loop_post_def by (intro exI[of _ tr]) simp
qed

lemma loop_post_append_miss:
  assumes "loop_post C t row st st1" "best_result st1 = None" "loop_post C t rest st1 st'"
  shows "loop_post C t (row @ rest) st st'"
proof -
  from assms(1) obtain tr1 where tr1: "attempts st1 = attempts st @ tr1" "stops_at_first C row tr1"
    "\<forall>p. p \<noteq> t \<longrightarrow> files st1 p = files st p"
    "if hit C tr1
         then best_result st1 = Some t \<and>
              (\<exists>b. files st1 t = Some b \<and> measured (last tr1) = Some (length b))
         else best_result st1 = None \<and>
              (row \<noteq> [] \<longrightarrow> files st1 t = None) \<and>
              (row = [] \<longrightarrow> files st1 = files st)"
    unfolding loop_post_def by blast
  from assms(3) obtain tr2 where tr2: "attempts st' = attempts st1 @ tr2" "stops_at_first C rest tr2"
    "\<forall>p. p \<noteq> t \<longrightarrow> files st' p = files st1 p"
    "if hit C tr2
         then best_result st' = Some t \<and>
              (\<exists>b. files st' t = Some b \<and> measured (last tr2) = Some (length b))
         else best_result st' = None \<and>
              (rest \<noteq> [] \<longrightarrow> files st' t = None) \<and>
              (rest = [] \<longrightarrow> files st' = files st1)"
    unfolding loop_post_def by blast
  from tr1(4) assms(2) have nh: "\<not> hit C tr1" by (auto split: if_splits)
  with tr1(4) have f1: "row \<noteq> [] \<longrightarrow> files st1 t = None" "row = [] \<longrightarrow> files st1 = files st"
    by auto
  have 1: "attempts st' = attempts st @ (tr1 @ tr2)" using tr1(1) tr2(1) by simp
  have 2: "stops_at_first C (row @ rest) (tr1 @ tr2)"
    using tr1(2) nh tr2(2) by (rule stops_append_miss)
  have 3: "\<forall>p. p \<noteq> t \<longrightarrow> files st' p = files st p" using tr1(3) tr2(3) by simp
  have h: "hit C (tr1 @ tr2) = hit C tr2" using nh by (rule hit_append)
  have 4: "if hit C (tr1 @ tr2)
         then best_result st' = Some t \<and>
              (\<exists>b. files st' t = Some b \<and> measured (last (tr1 @ tr2)) = Some (length b))
         else best_result st' = None \<and>
              (row @ rest \<noteq> [] \<longrightarrow> files st' t = None) \<and>
              (row @ rest = [] \<longrightarrow> files st' = files st)"
  proof (cases "hit C tr2")
    case True
    then have "tr2 \<noteq> []" by (simp add: hit_def)
    with True tr2(4) h show ?thesis by simp
  next
    case False
    with tr2(4) h f1 show ?thesis by (cases "rest = []") auto
  qed
  show ?thesis unfolding loop_post_def using 1 2 3 4 by blast
qed

lemma grid_Cons: "grid mk (level # levels) scales = map (mk level) scales @ grid mk levels scales"
  by (simp add: grid_def)

lemma grid_loop_spec:
  assumes "\<forall>level. writes_only (build level) t" "t \<noteq> []" "best_result st = None"
  shows "\<exists>st'. grid_loop C build mk t levels st = (None, st') \<and>
               loop_post C t (grid mk levels (scale_factors C)) st st'"
  using assms(3)
proof (induction levels arbitrary: st)
  case Nil
  then show ?case by (simp add: grid_def loop_post_nil)
next
  case (Cons level levels)
  from assms(1) have w: "writes_only (build level) t" by simp
  from scale_loop_spec[OF w Cons.prems, of C "mk level" "scale_factors C"] obtain st1 where
    st1: "scale_loop C (build level) (mk level) t (scale_factors C) st = (None, st1)"
         "loop_post C t (map (mk level) (scale_factors C)) st st1"
    by blast
  show ?case
  proof (cases "best_result st1")
    case None
    from Cons.IH[OF None] obtain st' where
      st': "grid_loop C build mk t levels st1 = (None, st')"
           "loop_post C t (grid mk levels (scale_factors C)) st1 st'"
      by blast
    have "grid_loop C build mk t (level # levels) st = (None, st')"
      using st1(1) st'(1) None by (simp add: truthy_def)
    moreover have "loop_post C t (grid mk (level # levels) (scale_factors C)) st st'"
      unfolding grid_Cons using st1(2) None st'(2) by (rule loop_post_append_miss)
    ultimately show ?thesis by blast
  next
    case (Some p)
    with st1(2) have "p = t" by (auto simp: loop_post_def split: if_splits)
    with Some assms(2) have tr: "truthy (best_result st1)" by (simp add: truthy_def)
    have "grid_loop C build mk t (level # levels) st = (None, st1)"
      using st1(1) tr by simp
    moreover have "loop_post C t (grid mk (level # levels) (scale_factors C)) st st1"
      unfolding grid_Cons using st1(2) Some by (intro loop_post_append_hit) auto
    ultimately show ?thesis by blast
  qed
qed

lemma save_to_writes:
  "(fst (save_to E fs out nps) \<longrightarrow> snd (save_to E fs out nps) out \<noteq> None) \<and>
   (\<forall>p. p \<noteq> out \<longrightarrow> snd (save_to E fs out nps) p = fs p)"
  by (auto simp: save_to_def split: save_result.splits option.splits)

lemma images_writes_only:
  "writes_only (\<lambda>fs scale. compress_pdf_images E fs inp out quality scale) out"
  unfolding writes_only_def compress_pdf_images_def
  using save_to_writes by (auto split: option.splits)

lemma rendering_writes_only:
  "writes_only (\<lambda>fs scale. compress_pdf_rendering E fs inp out dpi scale) out"
  unfolding writes_only_def compress_pdf_rendering_def
  using save_to_writes by (auto split: option.splits)


subsection \<open>The two phases\<close>

lemma phase1_spec:
  assumes "best_result st = None"
  shows "\<exists>st'. phase1 E C inp out st = (None, st') \<and>
     loop_post C (out @ ''.temp'') (grid ImageCandidate (quality_levels C) (scale_factors C)) st st'"
  unfolding phase1_def
  by (rule grid_loop_spec) (use assms images_writes_only in auto)

lemma phase2_spec:
  assumes "best_result st = None"
  shows "\<exists>st'. phase2 E C inp out st = (None, st') \<and>
     loop_post C (out @ ''.temp2'') (grid RenderCandidate dpi_levels (scale_factors C)) st st'"
  unfolding phase2_def
  by (rule grid_loop_spec) (use assms rendering_writes_only in auto)

lemma loop_post_best:
  assumes "loop_post C t cs st st'"
  shows "best_result st' = None \<or>
         (best_result st' = Some t \<and>
          (\<exists>b. files st' t = Some b \<and> real (length b) \<le> target_size_bytes C))"
proof -
  from assms obtain tr where tr:
    "if hit C tr
         then best_result st' = Some t \<and>
              (\<exists>b. files st' t = Some b \<and> measured (last tr) = Some (length b))
         else best_result st' = None \<and>
              (cs \<noteq> [] \<longrightarrow> files st' t = None) \<and>
              (cs = [] \<longrightarrow> files st' = files st)"
    unfolding loop_post_def by blast
  show ?thesis
  proof (cases "hit C tr")
    case True
    with tr obtain b where b: "best_result st' = Some t" "files st' t = Some b"
      "measured (last tr) = Some (length b)" by auto
    from True have "met_target C (last tr)" by (simp add: hit_def)
    with b(3) have "real (length b) \<le> target_size_bytes C" by (simp add: met_target_def)
    with b show ?thesis by blast
  next
    case False
    with tr show ?thesis by simp
  qed
qed

lemma loop_post_exhausted:
  assumes "loop_post C t cs st st'" "attempts st' = attempts st @ tr"
    "\<forall>a\<in>set tr. \<not> met_target C a"
  shows "best_result st' = None \<and> map cand tr = cs \<and>
         (cs \<noteq> [] \<longrightarrow> files st' t = None) \<and>
         (\<forall>p. p \<noteq> t \<longrightarrow> files st' p = files st p)"
proof -
  from assms(1) obtain tr' where tr': "attempts st' = attempts st @ tr'"
    "stops_at_first C cs tr'"
    "\<forall>p. p \<noteq> t \<longrightarrow> files st' p = files st p"
    "if hit C tr'
         then best_result st' = Some t \<and>
              (\<exists>b. files st' t = Some b \<and> measured (last tr') = Some (length b))
         else best_result st' = None \<and>
              (cs \<noteq> [] \<longrightarrow> files st' t = None) \<and>
              (cs = [] \<longrightarrow> files st' = files st)"
    unfolding loop_post_def by blast
  from tr'(1) assms(2) have eq: "tr' = tr" by simp
  have nh: "\<not> hit C tr" using assms(3) by (auto simp: hit_def)
  from no_hit_all[OF tr'(2)[unfolded eq] nh] tr'(3,4) nh show ?thesis unfolding eq by simp
qed

lemma loop_post_trace: "loop_post C t cs st st' \<Longrightarrow> \<exists>tr. attempts st' = attempts st @ tr"
  unfolding loop_post_def by blast

lemma finalize_sound:
  assumes "best_result st = Some t" "files st t = Some b"
    "real (length b) \<le> target_size_bytes C" "outcome (finalize n out st) = Inr p"
  shows "\<exists>b. world (finalize n out st) p = Some b \<and> real (length b) \<le> target_size_bytes C"
  using assms
  by (auto simp: finalize_def move_def get_file_size_def split: if_splits)

lemma finalize_none: "best_result st = None \<Longrightarrow>
   finalize n out st = \<lparr>outcome = Inl exhausted, world = files st, trace = attempts st\<rparr>"
  by (simp add: finalize_def truthy_def)

lemma finalize_trace: "trace (finalize n out st) = attempts st"
  by (auto simp: finalize_def split: sum.splits option.splits)

subsection \<open>The sizes the attempts measure\<close>

lemma scale_loop_sizes:
  assumes "writes_only build t" "reports build inp data t (\<lambda>s. csz (mk s))" "inp \<noteq> t"
    and "files st inp = Some data" "\<forall>a\<in>set (attempts st). measured a = csz (cand a)"
  shows "files (snd (scale_loop C build mk t ss st)) inp = Some data \<and>
         (\<forall>a\<in>set (attempts (snd (scale_loop C build mk t ss st))). measured a = csz (cand a))"
  using assms(4,5)
proof (induction ss arbitrary: st)
  case Nil
  then show ?case by simp
next
  case (Cons s ss)
  define r where "r = build (files st) s"
  have frame: "snd r inp = Some data"
    using assms(1,3) Cons.prems(1) by (simp add: writes_only_def r_def)
  from assms(2) Cons.prems(1) have rep:
    "if fst r then \<exists>b. snd r t = Some b \<and> csz (mk s) = Some (length b) else csz (mk s) = None"
    unfolding reports_def r_def by blast
  show ?case
  proof (cases "fst r")
    case True
    with rep obtain b where b: "snd r t = Some b" "csz (mk s) = Some (length b)" by auto
    define st1 where "st1 = st\<lparr>files := snd r,
        attempts := attempts st @ [\<lparr>cand = mk s, measured = Some (length b)\<rparr>]\<rparr>"
    have i1: "files st1 inp = Some data" "\<forall>a\<in>set (attempts st1). measured a = csz (cand a)"
      using frame Cons.prems(2) b(2) by (auto simp: st1_def)
    show ?thesis
    proof (cases "real (length b) \<le> target_size_bytes C")
      case le: True
      have "attempts (snd (scale_loop C build mk t (s # ss) st)) = attempts st1 \<and>
            files (snd (scale_loop C build mk t (s # ss) st)) = files st1"
        using True b(1) le
        by (simp add: r_def[symmetric] get_file_size_def st1_def Let_def)
      with i1 show ?thesis by simp
    next
      case gt: False
      define st2 where "st2 = cleanup t st1"
      have st2: "files st2 inp = Some data" "\<forall>a\<in>set (attempts st2). measured a = csz (cand a)"
        using i1 assms(3) by (auto simp: st2_def cleanup_def)
      have run: "scale_loop C build mk t (s # ss) st = scale_loop C build mk t ss st2"
        using True b(1) gt
        by (simp add: r_def[symmetric] get_file_size_def st2_def st1_def Let_def)
      show ?thesis unfolding run using Cons.IH[OF st2] .
    qed
  next
    case False
    with rep have z: "csz (mk s) = None" by simp
    define st2 where "st2 = cleanup t (st\<lparr>files := snd r,
        attempts := attempts st @ [\<lparr>cand = mk s, measured = None\<rparr>]\<rparr>)"
    have st2: "files st2 inp = Some data" "\<forall>a\<in>set (attempts st2). measured a = csz (cand a)"
      using frame assms(3) Cons.prems(2) z by (auto simp: st2_def cleanup_def)
    have run: "scale_loop C build mk t (s # ss) st = scale_loop C build mk t ss st2"
      using False by (simp add: r_def[symmetric] st2_def Let_def)
    show ?thesis unfolding run using Cons.IH[OF st2] .
  qed
qed

lemma grid_loop_sizes:
  assumes "\<forall>level. writes_only (build level) t"
    "\<forall>level. reports (build level) inp data t (\<lambda>s. csz (mk level s))" "inp \<noteq> t"
    and "files st inp = Some data" "\<forall>a\<in>set (attempts st). measured a = csz (cand a)"
  shows "files (snd (grid_loop C build mk t levels st)) inp = Some data \<and>
         (\<forall>a\<in>set (attempts (snd (grid_loop C build mk t levels st))). measured a = csz (cand a))"
  using assms(4,5)
proof (induction levels arbitrary: st)
  case Nil
  then show ?case by simp
next
  case (Cons level levels)
  define r where "r = scale_loop C (build level) (mk level) t (scale_factors C) st"
  from assms(1,2) have w: "writes_only (build level) t"
    "reports (build level) inp data t (\<lambda>s. csz (mk level s))" by simp_all
  from scale_loop_sizes[OF w assms(3) Cons.prems, of C "scale_factors C"]
  have r: "files (snd r) inp = Some data" "\<forall>a\<in>set (attempts (snd r)). measured a = csz (cand a)"
    by (simp_all add: r_def)
  from Cons.IH[OF r] r show ?case
    by (cases r) (auto simp: r_def[symmetric] split: option.splits)
qed

lemma images_reports:
  "reports (\<lambda>fs scale. compress_pdf_images E fs inp out quality scale) inp data out
     (\<lambda>s. candidate_size E data (ImageCandidate quality s))"
  unfolding reports_def compress_pdf_images_def saved_size_def candidate_size.simps save_to_def
  by (auto split: option.splits save_result.splits)

lemma rendering_reports:
  "reports (\<lambda>fs scale. compress_pdf_rendering E fs inp out dpi scale) inp data out
     (\<lambda>s. candidate_size E data (RenderCandidate dpi s))"
  unfolding reports_def compress_pdf_rendering_def saved_size_def candidate_size.simps save_to_def
  by (auto split: option.splits save_result.splits)

lemma first_of_stops:
  assumes "stops_at_first C cs tr" "\<forall>a\<in>set tr. measured a = csz (cand a)"
  shows "find (\<lambda>c. within_target C (csz c)) cs = (if hit C tr then Some (cand (last tr)) else None)"
proof -
  have met: "\<And>a. a \<in> set tr \<Longrightarrow> met_target C a = within_target C (csz (cand a))"
    using assms(2) by (simp add: met_target_def within_target_def)
  from assms(1) have m: "map cand tr = take (length tr) cs"
    and b: "\<forall>a\<in>set (butlast tr). \<not> met_target C a" by (simp_all add: stops_at_first_def)
  from take_len_le[OF m] have le: "length tr \<le> length cs" .
  have nth: "\<And>i. i < length tr \<Longrightarrow> cs ! i = cand (tr ! i)"
  proof -
    fix i assume i: "i < length tr"
    then have "map cand tr ! i = cand (tr ! i)" by simp
    with m i show "cs ! i = cand (tr ! i)" by simp
  qed
  show ?thesis
  proof (cases "hit C tr")
    case True
    then have ne: "tr \<noteq> []" and ml: "met_target C (last tr)" by (simp_all add: hit_def)
    define k where "k = length tr - 1"
    from ne have k: "k < length tr" "last tr = tr ! k" by (simp_all add: k_def last_conv_nth)
    have early: "\<forall>j<k. \<not> within_target C (csz (cs ! j))"
    proof (intro allI impI)
      fix j assume j: "j < k"
      then have "tr ! j \<in> set (butlast tr)"
        using k(1) by (metis k_def length_butlast nth_butlast nth_mem)
      with b have "\<not> met_target C (tr ! j)" by simp
      moreover have "tr ! j \<in> set tr" using j k(1) by simp
      ultimately show "\<not> within_target C (csz (cs ! j))" using met nth j k(1) by simp
    qed
    have "within_target C (csz (cs ! k))" using ml k met nth by (metis nth_mem)
    moreover have "k < length cs" using k(1) le by simp
    ultimately have "find (\<lambda>c. within_target C (csz c)) cs = Some (cs ! k)"
      using early unfolding find_Some_iff by blast
    with True k nth show ?thesis by simp
  next
    case False
    from no_hit_all[OF assms(1) False] have all: "\<forall>a\<in>set tr. \<not> met_target C a"
      and cs: "map cand tr = cs" by simp_all
    have "\<forall>c\<in>set cs. \<not> within_target C (csz c)"
    proof
      fix c assume "c \<in> set cs"
      with cs obtain a where "a \<in> set tr" "c = cand a" by auto
      with all met show "\<not> within_target C (csz c)" by simp
    qed
    then have "find (\<lambda>c. within_target C (csz c)) cs = None"
      unfolding find_None_iff by blast
    with False show ?thesis by simp
  qed
qed

lemma compress_pdf_search:
  assumes "fs input_path = Some data" "\<not> real (length data) \<le> target_size_bytes C"
    and "output_path = chosen_output E input_path output_path_arg"
  shows "\<exists>st1. phase1 E C input_path output_path (search0 fs) = (None, st1) \<and>
           loop_post C (output_path @ ''.temp'')
             (grid ImageCandidate (quality_levels C) (scale_factors C)) (search0 fs) st1 \<and>
           (if best_result st1 \<noteq> None
            then compress_pdf E C fs input_path output_path_arg =
                   finalize (length data) output_path st1
            else \<exists>st2. phase2 E C input_path output_path st1 = (None, st2) \<and>
                   loop_post C (output_path @ ''.temp2'')
                     (grid RenderCandidate dpi_levels (scale_factors C)) st1 st2 \<and>
                   compress_pdf E C fs input_path output_path_arg =
                     finalize (length data) output_path st2)"
proof -
  note out = assms(3)[symmetric]
  obtain st1 where st1: "phase1 E C input_path output_path (search0 fs) = (None, st1)"
      "loop_post C (output_path @ ''.temp'')
         (grid ImageCandidate (quality_levels C) (scale_factors C)) (search0 fs) st1"
    using phase1_spec[of "search0 fs" E C input_path output_path] by (auto simp: search0_def)
  show ?thesis
  proof (cases "best_result st1")
    case None
    obtain st2 where st2: "phase2 E C input_path output_path st1 = (None, st2)"
      "loop_post C (output_path @ ''.temp2'')
         (grid RenderCandidate dpi_levels (scale_factors C)) st1 st2"
      using phase2_spec[OF None] by blast
    have "compress_pdf E C fs input_path output_path_arg = finalize (length data) output_path st2"
      using assms(1,2) st1(1) st2(1) None
      by (simp add: compress_pdf_def get_file_size_def out truthy_def)
    with st1 st2 None show ?thesis by auto
  next
    case (Some t)
    with loop_post_best[OF st1(2)] have b: "best_result st1 = Some (output_path @ ''.temp'')"
      by auto
    have "compress_pdf E C fs input_path output_path_arg = finalize (length data) output_path st1"
      using assms(1,2) st1(1) b
      by (simp add: compress_pdf_def get_file_size_def out truthy_def)
    with st1 b show ?thesis by auto
  qed
qed

lemma loop_post_cands:
  assumes "loop_post C t cs st st'" "\<forall>a\<in>set (attempts st). cand a \<in> G" "set cs \<subseteq> G"
  shows "\<forall>a\<in>set (attempts st'). cand a \<in> G"
proof -
  from assms(1) obtain tr where tr: "attempts st' = attempts st @ tr" "stops_at_first C cs tr"
    unfolding loop_post_def by blast
  from tr(2) have "map cand tr = take (length tr) cs" by (simp add: stops_at_first_def)
  then have "set (map cand tr) \<subseteq> set cs" by (metis set_take_subset)
  with assms(2,3) tr(1) show ?thesis by auto
qed

lemma compress_pdf_trace_sizes:
  assumes "fs input_path = Some data" "\<not> real (length data) \<le> target_size_bytes C"
    and "output_path = chosen_output E input_path output_path_arg"
    and "input_path \<noteq> output_path @ ''.temp''" "input_path \<noteq> output_path @ ''.temp2''"
  shows "\<forall>a\<in>set (trace (compress_pdf E C fs input_path output_path_arg)).
           measured a = candidate_size E data (cand a) \<and>
           cand a \<in> set (grid ImageCandidate (quality_levels C) (scale_factors C) @
                         grid RenderCandidate dpi_levels (scale_factors C))"
proof -
  define G where "G = set (grid ImageCandidate (quality_levels C) (scale_factors C) @
                         grid RenderCandidate dpi_levels (scale_factors C))"
  from compress_pdf_search[where fs = fs and input_path = input_path, OF assms(1-3)] obtain st1 where
    st1: "phase1 E C input_path output_path (search0 fs) = (None, st1)"
         "loop_post C (output_path @ ''.temp'')
            (grid ImageCandidate (quality_levels C) (scale_factors C)) (search0 fs) st1"
    and rest: "if best_result st1 \<noteq> None
            then compress_pdf E C fs input_path output_path_arg =
                   finalize (length data) output_path st1
            else \<exists>st2. phase2 E C input_path output_path st1 = (None, st2) \<and>
                   loop_post C (output_path @ ''.temp2'')
                     (grid RenderCandidate dpi_levels (scale_factors C)) st1 st2 \<and>
                   compress_pdf E C fs input_path output_path_arg =
                     finalize (length data) output_path st2"
    by blast
  have s1: "files st1 input_path = Some data \<and>
            (\<forall>a\<in>set (attempts st1). measured a = candidate_size E data (cand a))"
    using grid_loop_sizes[where build = "\<lambda>quality fs scale.
          compress_pdf_images E fs input_path (output_path @ ''.temp'') quality scale"
        and t = "output_path @ ''.temp''" and inp = input_path and data = data
        and csz = "candidate_size E data" and mk = ImageCandidate and st = "search0 fs"
        and C = C and levels = "quality_levels C"]
      images_writes_only images_reports assms(1,4) st1(1)
    by (simp add: search0_def phase1_def)
  have c1: "\<forall>a\<in>set (attempts st1). cand a \<in> G"
    by (rule loop_post_cands[OF st1(2)]) (auto simp: search0_def G_def)
  show ?thesis
  proof (cases "best_result st1 \<noteq> None")
    case True
    with rest have "trace (compress_pdf E C fs input_path output_path_arg) = attempts st1"
      by (simp add: finalize_trace)
    with s1 c1 show ?thesis unfolding G_def by simp
  next
    case False
    with rest obtain st2 where st2: "phase2 E C input_path output_path st1 = (None, st2)"
      "loop_post C (output_path @ ''.temp2'')
         (grid RenderCandidate dpi_levels (scale_factors C)) st1 st2"
      "compress_pdf E C fs input_path output_path_arg = finalize (length data) output_path st2"
      by auto
    have s2: "\<forall>a\<in>set (attempts st2). measured a = candidate_size E data (cand a)"
      using grid_loop_sizes[where build = "\<lambda>dpi fs scale.
            compress_pdf_rendering E fs input_path (output_path @ ''.temp2'') dpi scale"
          and t = "output_path @ ''.temp2''" and inp = input_path and data = data
          and csz = "candidate_size E data" and mk = RenderCandidate and st = st1
          and C = C and levels = dpi_levels]
        rendering_writes_only rendering_reports assms(5) s1 st2(1)
      by (simp add: phase2_def)
    have c2: "\<forall>a\<in>set (attempts st2). cand a \<in> G"
      by (rule loop_post_cands[OF st2(2) c1]) (auto simp: G_def)
    from st2(3) have "trace (compress_pdf E C fs input_path output_path_arg) = attempts st2"
      by (simp add: finalize_trace)
    with s2 c2 show ?thesis unfolding G_def by simp
  qed
qed

lemma all_candidates_miss:
  assumes "fs input_path = Some data" "\<not> real (length data) \<le> target_size_bytes C"
    and "output_path = chosen_output E input_path output_path_arg"
    and "input_path \<noteq> output_path @ ''.temp''" "input_path \<noteq> output_path @ ''.temp2''"
    and "\<forall>c\<in>set (grid ImageCandidate (quality_levels C) (scale_factors C) @
                  grid RenderCandidate dpi_levels (scale_factors C)).
            \<not> within_target C (candidate_size E data c)"
  shows "\<forall>a \<in> set (trace (compress_pdf E C fs input_path output_path_arg)). \<not> met_target C a"
proof
  fix a assume "a \<in> set (trace (compress_pdf E C fs input_path output_path_arg))"
  with compress_pdf_trace_sizes[where fs = fs and input_path = input_path, OF assms(1-5)] have
    "measured a = candidate_size E data (cand a)"
    "cand a \<in> set (grid ImageCandidate (quality_levels C) (scale_factors C) @
                         grid RenderCandidate dpi_levels (scale_factors C))"
    by simp_all
  with assms(6) show "\<not> met_target C a"
    by (simp add: met_target_def within_target_def)
qed

subsection \<open>Running the small engine\<close>

lemma demo_engine_sel:
  "fitz_open demo_engine = (\<lambda>data. let described = takeWhile (\<lambda>b. b \<noteq> 255) data in
                      if described = [] then None else Some (map demo_page described))"
  "get_pixmap demo_engine = (\<lambda>pg zoom. Some (replicate (nat \<lfloor>10 * zoom\<rfloor>) 1))"
  "page_accepted demo_engine = (\<lambda>np. True)"
  "pdf_save demo_engine = (\<lambda>nps. Saved (concat (map demo_page_bytes nps)))"
  "image_open demo_engine = (\<lambda>b. if b = [] then Inl ''cannot identify image file''
                          else Inr \<lparr>mode = ''RGB'', width = int (length b), height = 1, pixels = b\<rparr>)"
  "save_jpeg demo_engine = (\<lambda>img quality. Inr (replicate (length (pixels img) * nat quality) 0))"
  "default_output demo_engine = (\<lambda>p. p @ ''_compressed'')"
  "samefile demo_engine = (\<lambda>p q. p = ''./'' @ q \<or> q = ''./'' @ p)"
  "open_wb demo_engine = (\<lambda>p. None)"
  by (simp_all add: demo_engine_def)

lemma demo_open: "fitz_open demo_engine demo_input = Some [demo_page 70]"
  by (simp add: demo_engine_sel demo_input_def)

lemma demo_open_pages:
  "fitz_open demo_engine [0] = Some [demo_page 0]"
  "fitz_open demo_engine [70, 70] = Some [demo_page 70, demo_page 70]"
  "fitz_open demo_engine [0, 70] = Some [demo_page 0, demo_page 70]"
  by (simp_all add: demo_engine_sel Let_def)

lemma demo_length: "length demo_input = 1000"
  by (simp add: demo_input_def)

lemma demo_jpeg:
  "0 < n \<Longrightarrow> ppm_to_jpeg demo_engine (replicate n 1) q = Some (replicate (n * nat q) 0)"
  by (simp add: ppm_to_jpeg_def demo_engine_sel)

lemma demo_images:
  assumes "fs inp = Some demo_input" "1 \<le> 10 * s"
  shows "compress_pdf_images demo_engine fs inp out q s =
           (True, fs(out \<mapsto> replicate (nat \<lfloor>10 * s\<rfloor> * nat q) 0))"
proof -
  have "0 < nat \<lfloor>10 * s\<rfloor>" using assms(2) by linarith
  then show ?thesis using assms(1)
    by (simp add: compress_pdf_images_def demo_open images_page_def demo_jpeg demo_page_def
        place_page_def save_to_def demo_page_bytes_def demo_engine_sel(2,3,4))
qed

lemma demo_rendering:
  assumes "fs inp = Some demo_input" "72 \<le> 10 * real_of_int dpi * s"
  shows "compress_pdf_rendering demo_engine fs inp out dpi s =
           (True, fs(out \<mapsto> replicate (nat \<lfloor>10 * (real_of_int dpi / 72 * s)\<rfloor> * 85) 0))"
proof -
  have "1 \<le> 10 * (real_of_int dpi / 72 * s)" using assms(2) by simp
  then have "0 < nat \<lfloor>10 * (real_of_int dpi / 72 * s)\<rfloor>" by linarith
  then show ?thesis using assms(1)
    by (simp add: compress_pdf_rendering_def demo_open rendering_page_def demo_jpeg demo_page_def
        place_page_def save_to_def demo_page_bytes_def demo_engine_sel(2,3,4) Let_def)
qed

lemmas run_defs = compress_pdf_def chosen_output_def demo_compressor_def PDFCompressor_def
  phase1_def phase2_def search0_def demo_fs_def demo_length get_file_size_def truthy_def
  cleanup_def finalize_def move_def copy2_def dpi_levels_def Let_def demo_images demo_rendering

lemma demo_phase1_700:
  "phase1 demo_engine (demo_compressor 700) ''in.pdf'' ''out.pdf'' (search0 demo_fs) =
     (None,
      \<lparr>files = demo_fs(''out.pdf.temp'' \<mapsto> replicate 665 0),
       best_result = Some ''out.pdf.temp'',
       best_size = enat 665,
       attempts = [\<lparr>cand = ImageCandidate 95 1, measured = Some 950\<rparr>,
                   \<lparr>cand = ImageCandidate 95 (9 / 10), measured = Some 855\<rparr>,
                   \<lparr>cand = ImageCandidate 95 (8 / 10), measured = Some 760\<rparr>,
                   \<lparr>cand = ImageCandidate 95 (7 / 10), measured = Some 665\<rparr>]\<rparr>)"
  by (simp add: run_defs)


lemma demo_run_700:
  "compress_pdf demo_engine (demo_compressor 700) demo_fs ''in.pdf'' (Some ''out.pdf'') =
     \<lparr>outcome = Inr ''out.pdf'',
      world = demo_fs(''out.pdf.temp'' := None, ''out.pdf'' \<mapsto> replicate 665 0),
      trace = [\<lparr>cand = ImageCandidate 95 1, measured = Some 950\<rparr>,
               \<lparr>cand = ImageCandidate 95 (9 / 10), measured = Some 855\<rparr>,
               \<lparr>cand = ImageCandidate 95 (8 / 10), measured = Some 760\<rparr>,
               \<lparr>cand = ImageCandidate 95 (7 / 10), measured = Some 665\<rparr>]\<rparr>"
proof -
  have t: "target_size_bytes (demo_compressor 700) = 700"
    by (simp add: demo_compressor_def PDFCompressor_def)
  have i: "demo_fs ''in.pdf'' = Some demo_input" by (simp add: demo_fs_def)
  show ?thesis
    by (simp add: compress_pdf_def chosen_output_def i t demo_length get_file_size_def
        demo_phase1_700 truthy_def finalize_def move_def Let_def)
qed

lemma demo_saved_size:
  "1 \<le> 10 * s \<Longrightarrow>
     saved_size demo_engine (images_page demo_engine q s) demo_input = Some (nat \<lfloor>10 * s\<rfloor> * nat q)"
  "72 \<le> 10 * real_of_int dpi * s \<Longrightarrow>
     saved_size demo_engine (rendering_page demo_engine dpi s) demo_input =
       Some (nat \<lfloor>10 * (real_of_int dpi / 72 * s)\<rfloor> * 85)"
proof -
  assume "1 \<le> 10 * s"
  then have "0 < nat \<lfloor>10 * s\<rfloor>" by linarith
  then show "saved_size demo_engine (images_page demo_engine q s) demo_input =
               Some (nat \<lfloor>10 * s\<rfloor> * nat q)"
    by (simp add: saved_size_def demo_open images_page_def demo_jpeg demo_page_def
        place_page_def demo_page_bytes_def demo_engine_sel(2,3,4))
next
  assume "72 \<le> 10 * real_of_int dpi * s"
  then have "1 \<le> 10 * (real_of_int dpi / 72 * s)" by simp
  then have "0 < nat \<lfloor>10 * (real_of_int dpi / 72 * s)\<rfloor>" by linarith
  then show "saved_size demo_engine (rendering_page demo_engine dpi s) demo_input =
       Some (nat \<lfloor>10 * (real_of_int dpi / 72 * s)\<rfloor> * 85)"
    by (simp add: saved_size_def demo_open rendering_page_def demo_jpeg demo_page_def
        place_page_def demo_page_bytes_def demo_engine_sel(2,3,4) Let_def)
qed

lemma demo_all_miss_50:
  "filter (\<lambda>c. within_target (demo_compressor 50) (candidate_size demo_engine demo_input c))
     (grid ImageCandidate (quality_levels (demo_compressor 50)) (scale_factors (demo_compressor 50)) @
      grid RenderCandidate dpi_levels (scale_factors (demo_compressor 50))) = []"
  by (simp add: grid_def demo_compressor_def PDFCompressor_def dpi_levels_def within_target_def
      demo_saved_size)


section \<open>Properties of compress\_pdf\<close>

text \<open>
  C1. Phase 1 of \<open>compress_pdf\<close> enumerates the candidates with the quality levels
  \<open>[95, 85, 75, 65, 50, 40, 30, 20]\<close> in the outer loop and the scale factors
  \<open>[1.0, 0.9, 0.8, 0.7, 0.6, 0.5, 0.4]\<close> in the inner loop. For an input larger than the
  target, the run of \<open>compress_pdf\<close> starts with the attempts of phase 1, which are the
  candidates in that order up to and including the first one whose rebuilt file is within
  the target: no attempt before the last one meets the target, and no attempt follows one
  that does. When the last attempt of phase 1 meets the target, the run makes no further
  attempt in either phase and returns the output path, where it has moved the file measured
  for that attempt; otherwise phase 1 tried every candidate, selected none, and the attempts
  of phase 2 follow. When the input file is not the temp file itself, every attempt of
  phase 1 measures the size of the file that the rebuild of its candidate saves for the
  input's bytes, and the selected candidate is the first candidate of the enumeration whose
  rebuilt file is within the target.
\<close>

theorem compress_pdf_first_success:
  assumes "fs input_path = Some data" "\<not> real (length data) \<le> target_size_bytes C"
    and "output_path = chosen_output E input_path output_path_arg"
  shows "\<exists>st. phase1 E C input_path output_path (search0 fs) = (None, st) \<and>
     stops_at_first C (grid ImageCandidate (quality_levels C) (scale_factors C)) (attempts st) \<and>
     (if hit C (attempts st)
      then best_result st = Some (output_path @ ''.temp'') \<and>
           (\<exists>b. files st (output_path @ ''.temp'') = Some b \<and>
                measured (last (attempts st)) = Some (length b) \<and>
                compress_pdf E C fs input_path output_path_arg =
                  \<lparr>outcome = Inr output_path,
                   world = fs(output_path @ ''.temp'' := None, output_path \<mapsto> b),
                   trace = attempts st\<rparr>)
      else best_result st = None \<and>
           (\<exists>tr2. trace (compress_pdf E C fs input_path output_path_arg) = attempts st @ tr2 \<and>
                  stops_at_first C (grid RenderCandidate dpi_levels (scale_factors C)) tr2)) \<and>
     (input_path \<noteq> output_path @ ''.temp'' \<longrightarrow>
        (\<forall>a\<in>set (attempts st). measured a = candidate_size E data (cand a)) \<and>
        find (\<lambda>c. within_target C (candidate_size E data c))
             (grid ImageCandidate (quality_levels C) (scale_factors C)) =
          (if hit C (attempts st) then Some (cand (last (attempts st))) else None)) \<and>
     quality_levels (PDFCompressor mb) = [95, 85, 75, 65, 50, 40, 30, 20] \<and>
     scale_factors (PDFCompressor mb) = [1, 9 / 10, 8 / 10, 7 / 10, 6 / 10, 5 / 10, 4 / 10]"
proof -
  define R where "R = compress_pdf E C fs input_path output_path_arg"
  define t where "t = output_path @ ''.temp''"
  define g1 where "g1 = grid ImageCandidate (quality_levels C) (scale_factors C)"
  define g2 where "g2 = grid RenderCandidate dpi_levels (scale_factors C)"
  have ne: "t \<noteq> output_path" "t \<noteq> []" by (simp_all add: t_def)
  from compress_pdf_search[where fs = fs and input_path = input_path, OF assms]
  obtain st where st: "phase1 E C input_path output_path (search0 fs) = (None, st)"
      "loop_post C t g1 (search0 fs) st"
    and rest: "if best_result st \<noteq> None
            then R = finalize (length data) output_path st
            else \<exists>st2. phase2 E C input_path output_path st = (None, st2) \<and>
                   loop_post C (output_path @ ''.temp2'') g2 st st2 \<and>
                   R = finalize (length data) output_path st2"
    unfolding R_def t_def g1_def g2_def by blast
  from st(2) obtain tr where tr: "attempts st = attempts (search0 fs) @ tr"
    "stops_at_first C g1 tr"
    "\<forall>p. p \<noteq> t \<longrightarrow> files st p = files (search0 fs) p"
    "if hit C tr
         then best_result st = Some t \<and>
              (\<exists>b. files st t = Some b \<and> measured (last tr) = Some (length b))
         else best_result st = None \<and>
              (g1 \<noteq> [] \<longrightarrow> files st t = None) \<and>
              (g1 = [] \<longrightarrow> files st = files (search0 fs))"
    unfolding loop_post_def by blast
  from tr(1) have eq: "attempts st = tr" by (simp add: search0_def)
  from tr(3) have frame: "\<forall>p. p \<noteq> t \<longrightarrow> files st p = fs p" by (simp add: search0_def)
  have sel: "if hit C tr
      then best_result st = Some t \<and>
           (\<exists>b. files st t = Some b \<and> measured (last tr) = Some (length b) \<and>
                R = \<lparr>outcome = Inr output_path,
                     world = fs(t := None, output_path \<mapsto> b), trace = tr\<rparr>)
      else best_result st = None \<and>
           (\<exists>tr2. trace R = tr @ tr2 \<and> stops_at_first C g2 tr2)"
  proof (cases "hit C tr")
    case True
    with tr(4) obtain b where b: "best_result st = Some t" "files st t = Some b"
      "measured (last tr) = Some (length b)" by auto
    from True b(3) have "real (length b) \<le> target_size_bytes C"
      by (simp add: hit_def met_target_def)
    with assms(2) have pos: "length data \<noteq> 0" by auto
    have w: "(files st)(t := None, output_path \<mapsto> b) = fs(t := None, output_path \<mapsto> b)"
      using frame by (auto simp: fun_eq_iff)
    from rest b(1) have "R = finalize (length data) output_path st" by simp
    also have "\<dots> = \<lparr>outcome = Inr output_path,
                     world = (files st)(t := None, output_path \<mapsto> b), trace = tr\<rparr>"
      using b(1,2) ne pos eq
      by (simp add: finalize_def truthy_def move_def get_file_size_def)
    finally have "R = \<lparr>outcome = Inr output_path,
                     world = fs(t := None, output_path \<mapsto> b), trace = tr\<rparr>"
      unfolding w .
    with True b show ?thesis by auto
  next
    case False
    with tr(4) have n: "best_result st = None" by simp
    with rest obtain st2 where st2: "loop_post C (output_path @ ''.temp2'') g2 st st2"
      "R = finalize (length data) output_path st2" by auto
    from st2(1) obtain tr2 where tr2: "attempts st2 = attempts st @ tr2" "stops_at_first C g2 tr2"
      unfolding loop_post_def by blast
    from st2(2) have "trace R = attempts st2" by (simp add: finalize_trace)
    with tr2 eq have "trace R = tr @ tr2 \<and> stops_at_first C g2 tr2" by simp
    with False n show ?thesis by auto
  qed
  have pure: "input_path \<noteq> t \<longrightarrow>
        (\<forall>a\<in>set tr. measured a = candidate_size E data (cand a)) \<and>
        find (\<lambda>c. within_target C (candidate_size E data c)) g1 =
          (if hit C tr then Some (cand (last tr)) else None)"
  proof
    assume a: "input_path \<noteq> t"
    have sizes: "\<forall>a\<in>set tr. measured a = candidate_size E data (cand a)"
      using grid_loop_sizes[where build = "\<lambda>quality fs scale.
            compress_pdf_images E fs input_path t quality scale"
          and t = t and inp = input_path and data = data
          and csz = "candidate_size E data" and mk = ImageCandidate and st = "search0 fs"
          and C = C and levels = "quality_levels C"]
        images_writes_only images_reports a assms(1) st(1) eq
      by (simp add: search0_def phase1_def t_def)
    from first_of_stops[OF tr(2) sizes] sizes
    show "(\<forall>a\<in>set tr. measured a = candidate_size E data (cand a)) \<and>
        find (\<lambda>c. within_target C (candidate_size E data c)) g1 =
          (if hit C tr then Some (cand (last tr)) else None)"
      by simp
  qed
  from st(1) tr(2) sel pure show ?thesis
    unfolding eq[symmetric] R_def t_def g1_def g2_def by (simp add: PDFCompressor_def)
qed

text \<open>
  On the small engine with a target of 700 bytes the sizes are 950, 855, 760 and 665:
  the fourth candidate is selected and its file returned, though later candidates would be
  smaller.
\<close>

theorem compress_pdf_first_success_witness:
  "demo_fs ''in.pdf'' = Some demo_input \<and>
   \<not> real (length demo_input) \<le> target_size_bytes (demo_compressor 700) \<and>
   compress_pdf demo_engine (demo_compressor 700) demo_fs ''in.pdf'' (Some ''out.pdf'') =
     \<lparr>outcome = Inr ''out.pdf'',
      world = demo_fs(''out.pdf.temp'' := None, ''out.pdf'' \<mapsto> replicate 665 0),
      trace = [\<lparr>cand = ImageCandidate 95 1, measured = Some 950\<rparr>,
               \<lparr>cand = ImageCandidate 95 (9 / 10), measured = Some 855\<rparr>,
               \<lparr>cand = ImageCandidate 95 (8 / 10), measured = Some 760\<rparr>,
               \<lparr>cand = ImageCandidate 95 (7 / 10), measured = Some 665\<rparr>]\<rparr> \<and>
   find (\<lambda>c. within_target (demo_compressor 700) (candidate_size demo_engine demo_input c))
        (grid ImageCandidate (quality_levels (demo_compressor 700))
           (scale_factors (demo_compressor 700))) = Some (ImageCandidate 95 (7 / 10)) \<and>
   candidate_size demo_engine demo_input (ImageCandidate 20 (4 / 10)) = Some 80"
proof -
  define tr where "tr = [\<lparr>cand = ImageCandidate 95 1, measured = Some 950\<rparr>,
      \<lparr>cand = ImageCandidate 95 (9 / 10), measured = Some 855\<rparr>,
      \<lparr>cand = ImageCandidate 95 (8 / 10), measured = Some 760\<rparr>,
      \<lparr>cand = ImageCandidate 95 (7 / 10), measured = Some (665 :: nat)\<rparr>]"
  have h1: "demo_fs ''in.pdf'' = Some demo_input" by (simp add: demo_fs_def)
  have h2: "\<not> real (length demo_input) \<le> target_size_bytes (demo_compressor 700)"
    by (simp add: demo_length demo_compressor_def PDFCompressor_def)
  have h3: "''out.pdf'' = chosen_output demo_engine ''in.pdf'' (Some ''out.pdf'')"
    by (simp add: chosen_output_def)
  have h: "hit (demo_compressor 700) tr"
    by (simp add: hit_def tr_def met_target_def demo_compressor_def PDFCompressor_def)
  from compress_pdf_first_success[where fs = demo_fs and input_path = "''in.pdf''",
      OF h1 h2 h3]
  obtain st where st:
    "phase1 demo_engine (demo_compressor 700) ''in.pdf'' ''out.pdf'' (search0 demo_fs) = (None, st)"
    "''in.pdf'' \<noteq> ''out.pdf'' @ ''.temp'' \<longrightarrow>
       find (\<lambda>c. within_target (demo_compressor 700) (candidate_size demo_engine demo_input c))
            (grid ImageCandidate (quality_levels (demo_compressor 700))
               (scale_factors (demo_compressor 700))) =
         (if hit (demo_compressor 700) (attempts st) then Some (cand (last (attempts st)))
          else None)"
    by blast
  from st(1) have "st = snd (phase1 demo_engine (demo_compressor 700) ''in.pdf'' ''out.pdf''
                               (search0 demo_fs))"
    by simp
  then have a: "attempts st = tr" by (simp add: demo_phase1_700 tr_def)
  from st(2) h have f:
    "find (\<lambda>c. within_target (demo_compressor 700) (candidate_size demo_engine demo_input c))
          (grid ImageCandidate (quality_levels (demo_compressor 700))
             (scale_factors (demo_compressor 700))) = Some (ImageCandidate 95 (7 / 10))"
    unfolding a by (simp add: tr_def)
  have later: "candidate_size demo_engine demo_input (ImageCandidate 20 (4 / 10)) = Some 80"
    by (simp add: demo_saved_size)
  from h1 h2 f later show ?thesis by (simp add: demo_run_700)
qed

text \<open>
  C2. Whenever \<open>compress_pdf\<close> returns a path, on the copy path or with a candidate of
  either phase, the file at that path exists and its size is at most
  \<open>target_size_bytes\<close>.
\<close>

theorem compress_pdf_within_target:
  assumes "outcome (compress_pdf E C fs input_path output_path_arg) = Inr p"
  shows "\<exists>b. world (compress_pdf E C fs input_path output_path_arg) p = Some b \<and>
             real (length b) \<le> target_size_bytes C"
proof -
  define out where "out = chosen_output E input_path output_path_arg"
  from assms obtain data where data: "fs input_path = Some data"
    by (cases "fs input_path") (auto simp: compress_pdf_def)
  show ?thesis
  proof (cases "real (length data) \<le> target_size_bytes C")
    case True
    with assms data show ?thesis
      by (auto simp: compress_pdf_def get_file_size_def copy2_def Let_def
          split: if_splits option.splits)
  next
    case False
    obtain st1 where st1: "phase1 E C input_path out (search0 fs) = (None, st1)"
      "loop_post C (out @ ''.temp'') (grid ImageCandidate (quality_levels C) (scale_factors C))
         (search0 fs) st1"
      using phase1_spec[of "search0 fs" E C input_path out] by (auto simp: search0_def)
    show ?thesis
    proof (cases "best_result st1")
      case None
      obtain st2 where st2: "phase2 E C input_path out st1 = (None, st2)"
        "loop_post C (out @ ''.temp2'') (grid RenderCandidate dpi_levels (scale_factors C)) st1 st2"
        using phase2_spec[OF None] by blast
      have run: "compress_pdf E C fs input_path output_path_arg = finalize (length data) out st2"
        using data False st1(1) st2(1) None
        by (simp add: compress_pdf_def get_file_size_def out_def[symmetric] truthy_def)
      from loop_post_best[OF st2(2)] show ?thesis
      proof
        assume "best_result st2 = None"
        with assms run show ?thesis by (simp add: finalize_none)
      next
        assume "best_result st2 = Some (out @ ''.temp2'') \<and>
          (\<exists>b. files st2 (out @ ''.temp2'') = Some b \<and> real (length b) \<le> target_size_bytes C)"
        then show ?thesis using assms finalize_sound unfolding run by blast
      qed
    next
      case (Some t)
      with loop_post_best[OF st1(2)] have b: "best_result st1 = Some (out @ ''.temp'')"
        "\<exists>b. files st1 (out @ ''.temp'') = Some b \<and> real (length b) \<le> target_size_bytes C"
        by auto
      have run: "compress_pdf E C fs input_path output_path_arg = finalize (length data) out st1"
        using data False st1(1) b(1)
        by (simp add: compress_pdf_def get_file_size_def out_def[symmetric] truthy_def)
      show ?thesis using b assms finalize_sound unfolding run by blast
    qed
  qed
qed

theorem compress_pdf_within_target_witness:
  "outcome (compress_pdf demo_engine (demo_compressor 700) demo_fs ''in.pdf'' (Some ''out.pdf''))
     = Inr ''out.pdf'' \<and>
   world (compress_pdf demo_engine (demo_compressor 700) demo_fs ''in.pdf'' (Some ''out.pdf''))
     ''out.pdf'' = Some (replicate 665 0) \<and>
   real (length (replicate 665 (0 :: byte))) \<le> target_size_bytes (demo_compressor 700)"
proof -
  have h: "outcome (compress_pdf demo_engine (demo_compressor 700) demo_fs ''in.pdf''
                      (Some ''out.pdf'')) = Inr ''out.pdf''"
    by (simp add: demo_run_700)
  from compress_pdf_within_target[OF h] h show ?thesis
    by (simp add: demo_run_700)
qed


text \<open>
  C3. If the input is larger than the target and every candidate of both phases fails or
  gives a file larger than the target (said of the attempts the run makes, or, for an
  input file that is neither of the two temp files, of the rebuilds of the input's bytes),
  then \<open>compress_pdf\<close> raises the exhaustion error, the output path holds what it held before, no file but the
  two temp files can differ from before, the two temp files do not exist afterwards, and
  the attempts made are all candidates of phase 1 followed by all candidates of phase 2.
\<close>

theorem compress_pdf_exhausted:
  assumes "fs input_path = Some data" "\<not> real (length data) \<le> target_size_bytes C"
    and "output_path = chosen_output E input_path output_path_arg"
    and "(\<forall>a \<in> set (trace (compress_pdf E C fs input_path output_path_arg)). \<not> met_target C a) \<or>
         (input_path \<noteq> output_path @ ''.temp'' \<and> input_path \<noteq> output_path @ ''.temp2'' \<and>
          (\<forall>c\<in>set (grid ImageCandidate (quality_levels C) (scale_factors C) @
                     grid RenderCandidate dpi_levels (scale_factors C)).
              \<not> within_target C (candidate_size E data c)))"
  shows "outcome (compress_pdf E C fs input_path output_path_arg) = Inl exhausted \<and>
         world (compress_pdf E C fs input_path output_path_arg) output_path = fs output_path \<and>
         (\<forall>p. p \<noteq> output_path @ ''.temp'' \<and> p \<noteq> output_path @ ''.temp2'' \<longrightarrow>
              world (compress_pdf E C fs input_path output_path_arg) p = fs p) \<and>
         (quality_levels C \<noteq> [] \<and> scale_factors C \<noteq> [] \<longrightarrow>
            world (compress_pdf E C fs input_path output_path_arg) (output_path @ ''.temp'') = None) \<and>
         (scale_factors C \<noteq> [] \<longrightarrow>
            world (compress_pdf E C fs input_path output_path_arg) (output_path @ ''.temp2'') = None) \<and>
         map cand (trace (compress_pdf E C fs input_path output_path_arg)) =
           grid ImageCandidate (quality_levels C) (scale_factors C) @
           grid RenderCandidate dpi_levels (scale_factors C)"
proof -
  define R where "R = compress_pdf E C fs input_path output_path_arg"
  define g1 where "g1 = grid ImageCandidate (quality_levels C) (scale_factors C)"
  define g2 where "g2 = grid RenderCandidate dpi_levels (scale_factors C)"
  define t1 where "t1 = output_path @ ''.temp''"
  define t2 where "t2 = output_path @ ''.temp2''"
  note out = assms(3)[symmetric]
  have ne: "t1 \<noteq> t2" "output_path \<noteq> t1" "output_path \<noteq> t2" by (simp_all add: t1_def t2_def)
  obtain st1 where st1: "phase1 E C input_path output_path (search0 fs) = (None, st1)"
      "loop_post C t1 g1 (search0 fs) st1"
    using phase1_spec[of "search0 fs" E C input_path output_path]
    by (auto simp: search0_def t1_def g1_def)
  from loop_post_trace[OF st1(2)] obtain tr1 where tr1: "attempts st1 = tr1"
    by (simp add: search0_def)
  have miss: "\<forall>a\<in>set (trace R). \<not> met_target C a"
    using assms(4)
      all_candidates_miss[where fs = fs and input_path = input_path, OF assms(1,2,3)]
    unfolding R_def by blast
  have none1: "best_result st1 = None"
  proof (rule ccontr)
    assume "best_result st1 \<noteq> None"
    with loop_post_best[OF st1(2)] have b: "best_result st1 = Some t1" by auto
    have "R = finalize (length data) output_path st1"
      using assms(1,2) st1(1) b
      by (simp add: R_def compress_pdf_def out get_file_size_def truthy_def t1_def)
    then have "trace R = attempts st1" by (simp add: finalize_trace)
    with miss have "\<forall>a\<in>set tr1. \<not> met_target C a" using tr1 by simp
    with loop_post_exhausted[OF st1(2), of tr1] tr1 have "best_result st1 = None"
      by (simp add: search0_def)
    with b show False by simp
  qed
  obtain st2 where st2: "phase2 E C input_path output_path st1 = (None, st2)"
      "loop_post C t2 g2 st1 st2"
    using phase2_spec[OF none1, of E C input_path output_path] by (auto simp: t2_def g2_def)
  from loop_post_trace[OF st2(2)] obtain tr2 where tr2: "attempts st2 = tr1 @ tr2"
    using tr1 by auto
  have run: "R = finalize (length data) output_path st2"
    using assms(1,2) st1(1) st2(1) none1
    by (simp add: R_def compress_pdf_def out get_file_size_def truthy_def)
  then have "trace R = attempts st2" by (simp add: finalize_trace)
  with miss tr2 have m1: "\<forall>a\<in>set tr1. \<not> met_target C a" and m2: "\<forall>a\<in>set tr2. \<not> met_target C a"
    by auto
  from loop_post_exhausted[OF st1(2), of tr1] tr1 m1
  have e1: "map cand tr1 = g1" "g1 \<noteq> [] \<longrightarrow> files st1 t1 = None"
    "\<forall>p. p \<noteq> t1 \<longrightarrow> files st1 p = fs p"
    by (simp_all add: search0_def)
  from loop_post_exhausted[OF st2(2), of tr2] tr1 tr2 m2
  have e2: "best_result st2 = None" "map cand tr2 = g2" "g2 \<noteq> [] \<longrightarrow> files st2 t2 = None"
    "\<forall>p. p \<noteq> t2 \<longrightarrow> files st2 p = files st1 p"
    by simp_all
  have R: "R = \<lparr>outcome = Inl exhausted, world = files st2, trace = tr1 @ tr2\<rparr>"
    using run e2(1) tr2 by (simp add: finalize_none)
  have g1: "quality_levels C \<noteq> [] \<and> scale_factors C \<noteq> [] \<longrightarrow> g1 \<noteq> []"
    by (cases "quality_levels C") (auto simp: g1_def grid_def)
  have g2: "scale_factors C \<noteq> [] \<longrightarrow> g2 \<noteq> []"
    by (auto simp: g2_def grid_def dpi_levels_def)
  have "outcome R = Inl exhausted" using R by simp
  moreover have "world R output_path = fs output_path" using R e1(3) e2(4) ne by simp
  moreover have "\<forall>p. p \<noteq> t1 \<and> p \<noteq> t2 \<longrightarrow> world R p = fs p" using R e1(3) e2(4) by simp
  moreover have "quality_levels C \<noteq> [] \<and> scale_factors C \<noteq> [] \<longrightarrow> world R t1 = None"
    using R e1(2) e2(4) ne g1 by simp
  moreover have "scale_factors C \<noteq> [] \<longrightarrow> world R t2 = None"
    using R e2(3) g2 by simp
  moreover have "map cand (trace R) = g1 @ g2" using R e1(1) e2(2) by simp
  ultimately show ?thesis unfolding R_def g1_def g2_def t1_def t2_def by blast
qed

text \<open>
  On the small engine no candidate is smaller than 80 bytes: with a target of 50 bytes all
  98 candidates are tried and the run ends with the exhaustion error and no temp file.
\<close>

theorem compress_pdf_exhausted_witness:
  "demo_fs ''in.pdf'' = Some demo_input \<and>
   \<not> real (length demo_input) \<le> target_size_bytes (demo_compressor 50) \<and>
   filter (\<lambda>c. within_target (demo_compressor 50) (candidate_size demo_engine demo_input c))
     (grid ImageCandidate (quality_levels (demo_compressor 50)) (scale_factors (demo_compressor 50)) @
      grid RenderCandidate dpi_levels (scale_factors (demo_compressor 50))) = [] \<and>
   outcome (compress_pdf demo_engine (demo_compressor 50) demo_fs ''in.pdf'' (Some ''out.pdf''))
     = Inl exhausted \<and>
   world (compress_pdf demo_engine (demo_compressor 50) demo_fs ''in.pdf'' (Some ''out.pdf''))
     ''out.pdf'' = None \<and>
   world (compress_pdf demo_engine (demo_compressor 50) demo_fs ''in.pdf'' (Some ''out.pdf''))
     ''out.pdf.temp'' = None \<and>
   world (compress_pdf demo_engine (demo_compressor 50) demo_fs ''in.pdf'' (Some ''out.pdf''))
     ''out.pdf.temp2'' = None \<and>
   length (trace (compress_pdf demo_engine (demo_compressor 50) demo_fs ''in.pdf''
                    (Some ''out.pdf''))) = 98"
proof -
  define R where "R = compress_pdf demo_engine (demo_compressor 50) demo_fs ''in.pdf'' (Some ''out.pdf'')"
  have h1: "demo_fs ''in.pdf'' = Some demo_input" by (simp add: demo_fs_def)
  have h2: "\<not> real (length demo_input) \<le> target_size_bytes (demo_compressor 50)"
    by (simp add: demo_length demo_compressor_def PDFCompressor_def)
  have h3: "''out.pdf'' = chosen_output demo_engine ''in.pdf'' (Some ''out.pdf'')"
    by (simp add: chosen_output_def)
  have h4: "(\<forall>a \<in> set (trace (compress_pdf demo_engine (demo_compressor 50) demo_fs ''in.pdf''
                (Some ''out.pdf''))). \<not> met_target (demo_compressor 50) a) \<or>
         (''in.pdf'' \<noteq> ''out.pdf'' @ ''.temp'' \<and> ''in.pdf'' \<noteq> ''out.pdf'' @ ''.temp2'' \<and>
          (\<forall>c\<in>set (grid ImageCandidate (quality_levels (demo_compressor 50))
                       (scale_factors (demo_compressor 50)) @
                     grid RenderCandidate dpi_levels (scale_factors (demo_compressor 50))).
              \<not> within_target (demo_compressor 50) (candidate_size demo_engine demo_input c)))"
    using demo_all_miss_50 unfolding filter_empty_conv by simp
  have lists: "quality_levels (demo_compressor 50) \<noteq> []" "scale_factors (demo_compressor 50) \<noteq> []"
    by (simp_all add: demo_compressor_def PDFCompressor_def)
  have len: "length (grid ImageCandidate (quality_levels (demo_compressor 50))
                       (scale_factors (demo_compressor 50)) @
                     grid RenderCandidate dpi_levels (scale_factors (demo_compressor 50))) = 98"
    by (simp add: grid_def demo_compressor_def PDFCompressor_def dpi_levels_def)
  from compress_pdf_exhausted[where fs = demo_fs and input_path = "''in.pdf''",
      OF h1 h2 h3 h4] lists
  have r: "outcome R = Inl exhausted" "world R ''out.pdf'' = demo_fs ''out.pdf''"
    "world R ''out.pdf.temp'' = None" "world R ''out.pdf.temp2'' = None"
    "map cand (trace R) =
       grid ImageCandidate (quality_levels (demo_compressor 50)) (scale_factors (demo_compressor 50)) @
       grid RenderCandidate dpi_levels (scale_factors (demo_compressor 50))"
    unfolding R_def by simp_all
  from r(5) len have l: "length (trace R) = 98" by (metis length_map)
  have o: "demo_fs ''out.pdf'' = None" by (simp add: demo_fs_def)
  from h1 h2 demo_all_miss_50 r(1-4) l o show ?thesis unfolding R_def by simp
qed

text \<open>
  What lines 245 to 249 do for an input within the target: the copy raises when the output
  path names the input file or cannot be opened for writing, and otherwise the output file
  receives the input's bytes; no rebuild is attempted.
\<close>

lemma compress_pdf_copy_path:
  assumes "fs input_path = Some data" "real (length data) \<le> target_size_bytes C"
    and "output_path = chosen_output E input_path output_path_arg"
  shows "compress_pdf E C fs input_path output_path_arg =
     (if input_path = output_path \<or> samefile E input_path output_path
      then \<lparr>outcome = Inl (SameFileError input_path output_path), world = fs, trace = []\<rparr>
      else (case open_wb E output_path of
              Some e \<Rightarrow> \<lparr>outcome = Inl e, world = fs, trace = []\<rparr>
            | None \<Rightarrow> \<lparr>outcome = Inr output_path, world = fs(output_path \<mapsto> data),
                       trace = []\<rparr>))"
  using assms
  by (simp add: compress_pdf_def get_file_size_def copy2_def Let_def split: option.splits)

text \<open>
  C4 does not hold on the code. The file \<open>in.pdf\<close> of 1000 bytes is within the target of
  1 MB; with the input path itself as output path, and likewise with \<open>./in.pdf\<close>, another
  name of the same file, \<open>shutil.copy2\<close> on line 247 raises \<open>SameFileError\<close>: the call
  does not return and leaves the files as they were. With any other file name as output
  path the same call copies the input and returns.
\<close>

theorem compress_pdf_same_path_raises:
  "demo_fs ''in.pdf'' = Some demo_input \<and>
   real (length demo_input) \<le> target_size_bytes (PDFCompressor 1) \<and>
   compress_pdf demo_engine (PDFCompressor 1) demo_fs ''in.pdf'' (Some ''in.pdf'') =
     \<lparr>outcome = Inl (SameFileError ''in.pdf'' ''in.pdf''), world = demo_fs, trace = []\<rparr> \<and>
   compress_pdf demo_engine (PDFCompressor 1) demo_fs ''in.pdf'' (Some ''./in.pdf'') =
     \<lparr>outcome = Inl (SameFileError ''in.pdf'' ''./in.pdf''), world = demo_fs, trace = []\<rparr> \<and>
   compress_pdf demo_engine (PDFCompressor 1) demo_fs ''in.pdf'' (Some ''out.pdf'') =
     \<lparr>outcome = Inr ''out.pdf'', world = demo_fs(''out.pdf'' \<mapsto> demo_input), trace = []\<rparr>"
  by (simp add: compress_pdf_def chosen_output_def demo_fs_def demo_length PDFCompressor_def
      get_file_size_def copy2_def Let_def demo_engine_sel)


section \<open>Properties of the rebuilds\<close>

text \<open>
  C5. \<open>compress_image\<close> never raises: for every input, quality and scale it returns.
  When opening the image, making it RGB, resizing it or encoding it fails, it returns the
  original bytes unchanged and prints one warning with the exception's message.
\<close>

theorem compress_image_never_raises:
  "(\<exists>out printed. compress_image E image_data quality scale = Returns out printed) \<and>
   (image_open E image_data = Inl e \<or>
    (\<exists>img. image_open E image_data = Inr img \<and> to_rgb E img = Inl e) \<or>
    (\<exists>img rgb. image_open E image_data = Inr img \<and> to_rgb E img = Inr rgb \<and>
        scale_image E rgb scale = Inl e) \<or>
    (\<exists>img rgb scaled. image_open E image_data = Inr img \<and> to_rgb E img = Inr rgb \<and>
        scale_image E rgb scale = Inr scaled \<and> save_jpeg E scaled quality = Inl e)
    \<longrightarrow> compress_image E image_data quality scale =
          Returns image_data [''Warning: Could not compress image: '' @ e])"
  by (auto simp: compress_image_def compress_image_try_def split: sum.splits)

theorem compress_image_never_raises_witness:
  "image_open demo_engine [] = Inl ''cannot identify image file'' \<and>
   compress_image demo_engine [] 85 1 =
     Returns [] [''Warning: Could not compress image: cannot identify image file'']"
  using compress_image_never_raises[of demo_engine "[]" 85 1 "''cannot identify image file''"]
  by (simp add: demo_engine_sel)

subsection \<open>The pages of a rebuilt document\<close>

lemma build_pages_nth:
  "build_pages body n ps = Some nps \<Longrightarrow>
   length nps = length ps \<and> (\<forall>i<length ps. body (n + i) (ps ! i) = Some (nps ! i))"
proof (induction ps arbitrary: n nps)
  case Nil
  then show ?case by simp
next
  case (Cons p ps)
  from Cons.prems obtain np rest where np: "body n p = Some np"
    "build_pages body (Suc n) ps = Some rest" "nps = np # rest"
    by (auto split: option.splits)
  from Cons.IH[OF np(2)] have ih: "length rest = length ps"
    "\<forall>i<length ps. body (Suc n + i) (ps ! i) = Some (rest ! i)" by auto
  have "\<forall>i<length (p # ps). body (n + i) ((p # ps) ! i) = Some (nps ! i)"
  proof (intro allI impI)
    fix i assume "i < length (p # ps)"
    then show "body (n + i) ((p # ps) ! i) = Some (nps ! i)"
      using np(1,3) ih(2) by (cases i) auto
  qed
  with ih(1) np(3) show ?case by simp
qed

lemma save_to_True:
  "save_to E fs out nps = (True, fs') \<Longrightarrow> \<exists>b. pdf_save E nps = Saved b \<and> fs' = fs(out \<mapsto> b)"
  by (auto simp: save_to_def split: save_result.splits option.splits)

lemma images_True:
  assumes "compress_pdf_images E fs inp out q s = (True, fs')"
  shows "\<exists>data doc new_pdf b. fs inp = Some data \<and> fitz_open E data = Some doc \<and>
           build_pages (images_page E q s) 0 doc = Some new_pdf \<and>
           pdf_save E new_pdf = Saved b \<and> fs' = fs(out \<mapsto> b)"
  using assms save_to_True
  by (fastforce simp: compress_pdf_images_def split: option.splits)

lemma rendering_True:
  assumes "compress_pdf_rendering E fs inp out dpi s = (True, fs')"
  shows "\<exists>data doc new_pdf b. fs inp = Some data \<and> fitz_open E data = Some doc \<and>
           build_pages (rendering_page E dpi s) 0 doc = Some new_pdf \<and>
           pdf_save E new_pdf = Saved b \<and> fs' = fs(out \<mapsto> b)"
  using assms save_to_True
  by (fastforce simp: compress_pdf_rendering_def split: option.splits)

lemma ppm_to_jpeg_Some:
  "ppm_to_jpeg E ppm q = Some out \<Longrightarrow>
   \<exists>pil rgb. image_open E ppm = Inr pil \<and>
     (if mode pil \<noteq> ''RGB'' then convert E pil ''RGB'' else Inr pil) = Inr rgb \<and>
     save_jpeg E rgb q = Inr out"
  by (auto simp: ppm_to_jpeg_def split: sum.splits)

lemma rendering_page_raster:
  assumes "rendering_page E dpi s n pg = Some np"
  shows "\<exists>ppm pil rgb img. get_pixmap E pg (real_of_int dpi / 72 * s) = Some ppm \<and>
           image_open E ppm = Inr pil \<and>
           (if mode pil \<noteq> ''RGB'' then convert E pil ''RGB'' else Inr pil) = Inr rgb \<and>
           save_jpeg E rgb 85 = Inr img \<and>
           np = \<lparr>np_width = rect_width pg * s, np_height = rect_height pg * s,
                 np_content = InsertImage (0, 0, rect_width pg * s, rect_height pg * s) img\<rparr>"
proof -
  from assms obtain ppm img where p: "get_pixmap E pg (real_of_int dpi / 72 * s) = Some ppm"
    "ppm_to_jpeg E ppm 85 = Some img"
    "np = \<lparr>np_width = rect_width pg * s, np_height = rect_height pg * s,
                 np_content = InsertImage (0, 0, rect_width pg * s, rect_height pg * s) img\<rparr>"
    by (auto simp: rendering_page_def place_page_def Let_def split: option.splits if_splits)
  from ppm_to_jpeg_Some[OF p(2)] p(1,3) show ?thesis by blast
qed

lemma images_page_raster:
  assumes "images_page E q s n pg = Some np" "get_images pg \<noteq> []"
  shows "\<exists>ppm pil rgb img. get_pixmap E pg s = Some ppm \<and>
           image_open E ppm = Inr pil \<and>
           (if mode pil \<noteq> ''RGB'' then convert E pil ''RGB'' else Inr pil) = Inr rgb \<and>
           save_jpeg E rgb q = Inr img \<and>
           np = \<lparr>np_width = rect_width pg * s, np_height = rect_height pg * s,
                 np_content = InsertImage (0, 0, rect_width pg * s, rect_height pg * s) img\<rparr>"
proof -
  from assms obtain ppm img where p: "get_pixmap E pg s = Some ppm"
    "ppm_to_jpeg E ppm q = Some img"
    "np = \<lparr>np_width = rect_width pg * s, np_height = rect_height pg * s,
                 np_content = InsertImage (0, 0, rect_width pg * s, rect_height pg * s) img\<rparr>"
    by (auto simp: images_page_def place_page_def split: option.splits if_splits)
  from ppm_to_jpeg_Some[OF p(2)] p(1,3) show ?thesis by blast
qed

lemma images_page_transcluded:
  assumes "images_page E q s n pg = Some np" "get_images pg = []"
  shows "np = \<lparr>np_width = rect_width pg * s, np_height = rect_height pg * s,
               np_content = ShowPdfPage (0, 0, rect_width pg * s, rect_height pg * s) n\<rparr>"
  using assms by (auto simp: images_page_def place_page_def split: if_splits)

lemma demo_mixed_pages:
  "build_pages (images_page demo_engine 85 (1 / 2)) 0 [demo_page 0, demo_page 70] =
     Some [\<lparr>np_width = 50, np_height = 50, np_content = ShowPdfPage (0, 0, 50, 50) 0\<rparr>,
           \<lparr>np_width = 50, np_height = 50,
            np_content = InsertImage (0, 0, 50, 50) (replicate 425 0)\<rparr>]"
  by (simp add: images_page_def demo_page_def place_page_def demo_engine_sel(2,3) demo_jpeg)

lemma demo_mixed_run:
  "compress_pdf_images demo_engine [''mixed.pdf'' \<mapsto> [0, 70]] ''mixed.pdf'' ''out.pdf'' 85 (1 / 2) =
     (True, [''mixed.pdf'' \<mapsto> [0, 70], ''out.pdf'' \<mapsto> 0 # replicate 425 0])"
  by (simp add: compress_pdf_images_def demo_open_pages demo_mixed_pages save_to_def
      demo_engine_sel(4) demo_page_bytes_def del: build_pages.simps)

text \<open>
  C6, as stated, fails for \<open>compress_pdf_images\<close>: called with quality 20, it inserts the
  page's JPEG encoded at quality 20 (200 bytes on the small engine), not the one encoded at
  quality 85 (850 bytes), and the files it writes at the two qualities differ.
\<close>

theorem images_quality_not_fixed:
  "get_pixmap demo_engine (demo_page 70) 1 = Some (replicate 10 1) \<and>
   ppm_to_jpeg demo_engine (replicate 10 1) 20 = Some (replicate 200 0) \<and>
   ppm_to_jpeg demo_engine (replicate 10 1) 85 = Some (replicate 850 0) \<and>
   images_page demo_engine 20 1 0 (demo_page 70) =
     Some \<lparr>np_width = 100, np_height = 100,
           np_content = InsertImage (0, 0, 100, 100) (replicate 200 0)\<rparr> \<and>
   compress_pdf_images demo_engine demo_fs ''in.pdf'' ''out.pdf'' 20 1 =
     (True, demo_fs(''out.pdf'' \<mapsto> replicate 200 0)) \<and>
   compress_pdf_images demo_engine demo_fs ''in.pdf'' ''out.pdf'' 85 1 =
     (True, demo_fs(''out.pdf'' \<mapsto> replicate 850 0)) \<and>
   length (replicate 200 (0 :: byte)) \<noteq> length (replicate 850 (0 :: byte))"
  by (simp add: demo_images demo_fs_def demo_jpeg images_page_def demo_page_def place_page_def
      demo_engine_sel(2,3))

text \<open>
  C6, amended. In the full-rerender rebuild (\<open>compress_pdf_rendering\<close>) every page of a
  completed rebuild is the source page rendered at zoom \<open>dpi / 72 * scale\<close>, opened as an
  image, converted to RGB when it is not, and encoded as JPEG at the fixed quality 85: only
  the DPI and the scale control the resolution. In the image-recompress rebuild
  (\<open>compress_pdf_images\<close>) every page with at least one embedded image is the source page
  rendered at zoom \<open>scale\<close> and encoded, in the same way, at the \<open>quality\<close> argument of
  the call, which phase 1 varies. In both, the JPEG fills a page of the source's width and
  height multiplied by \<open>scale\<close>.
\<close>

theorem raster_quality:
  "(compress_pdf_rendering E fs input_path output_path dpi scale = (True, fs') \<longrightarrow>
      (\<exists>data doc new_pdf out. fs input_path = Some data \<and> fitz_open E data = Some doc \<and>
         pdf_save E new_pdf = Saved out \<and> fs' = fs(output_path \<mapsto> out) \<and>
         length new_pdf = length doc \<and>
         (\<forall>i<length doc. \<exists>ppm pil rgb img.
             get_pixmap E (doc ! i) (real_of_int dpi / 72 * scale) = Some ppm \<and>
             image_open E ppm = Inr pil \<and>
             (if mode pil \<noteq> ''RGB'' then convert E pil ''RGB'' else Inr pil) = Inr rgb \<and>
             save_jpeg E rgb 85 = Inr img \<and>
             new_pdf ! i =
               \<lparr>np_width = rect_width (doc ! i) * scale,
                np_height = rect_height (doc ! i) * scale,
                np_content =
                  InsertImage (0, 0, rect_width (doc ! i) * scale, rect_height (doc ! i) * scale)
                    img\<rparr>))) \<and>
   (compress_pdf_images E fs input_path output_path quality scale = (True, fs') \<longrightarrow>
      (\<exists>data doc new_pdf out. fs input_path = Some data \<and> fitz_open E data = Some doc \<and>
         pdf_save E new_pdf = Saved out \<and> fs' = fs(output_path \<mapsto> out) \<and>
         length new_pdf = length doc \<and>
         (\<forall>i<length doc. get_images (doc ! i) \<noteq> [] \<longrightarrow>
            (\<exists>ppm pil rgb img.
               get_pixmap E (doc ! i) scale = Some ppm \<and>
               image_open E ppm = Inr pil \<and>
               (if mode pil \<noteq> ''RGB'' then convert E pil ''RGB'' else Inr pil) = Inr rgb \<and>
               save_jpeg E rgb quality = Inr img \<and>
               new_pdf ! i =
                 \<lparr>np_width = rect_width (doc ! i) * scale,
                  np_height = rect_height (doc ! i) * scale,
                  np_content =
                    InsertImage (0, 0, rect_width (doc ! i) * scale, rect_height (doc ! i) * scale)
                      img\<rparr>))))"
proof (intro conjI impI)
  assume "compress_pdf_rendering E fs input_path output_path dpi scale = (True, fs')"
  from rendering_True[OF this] obtain data doc new_pdf out where
    r: "fs input_path = Some data" "fitz_open E data = Some doc"
       "build_pages (rendering_page E dpi scale) 0 doc = Some new_pdf"
       "pdf_save E new_pdf = Saved out" "fs' = fs(output_path \<mapsto> out)"
    by blast
  from build_pages_nth[OF r(3)] have n: "length new_pdf = length doc"
    "\<forall>i<length doc. rendering_page E dpi scale i (doc ! i) = Some (new_pdf ! i)" by auto
  have "\<forall>i<length doc. \<exists>ppm pil rgb img.
             get_pixmap E (doc ! i) (real_of_int dpi / 72 * scale) = Some ppm \<and>
             image_open E ppm = Inr pil \<and>
             (if mode pil \<noteq> ''RGB'' then convert E pil ''RGB'' else Inr pil) = Inr rgb \<and>
             save_jpeg E rgb 85 = Inr img \<and>
             new_pdf ! i =
               \<lparr>np_width = rect_width (doc ! i) * scale,
                np_height = rect_height (doc ! i) * scale,
                np_content =
                  InsertImage (0, 0, rect_width (doc ! i) * scale, rect_height (doc ! i) * scale)
                    img\<rparr>"
  proof (intro allI impI)
    fix i assume "i < length doc"
    with n(2) have "rendering_page E dpi scale i (doc ! i) = Some (new_pdf ! i)" by simp
    from rendering_page_raster[OF this] show "\<exists>ppm pil rgb img.
             get_pixmap E (doc ! i) (real_of_int dpi / 72 * scale) = Some ppm \<and>
             image_open E ppm = Inr pil \<and>
             (if mode pil \<noteq> ''RGB'' then convert E pil ''RGB'' else Inr pil) = Inr rgb \<and>
             save_jpeg E rgb 85 = Inr img \<and>
             new_pdf ! i =
               \<lparr>np_width = rect_width (doc ! i) * scale,
                np_height = rect_height (doc ! i) * scale,
                np_content =
                  InsertImage (0, 0, rect_width (doc ! i) * scale, rect_height (doc ! i) * scale)
                    img\<rparr>" .
  qed
  with r n(1) show "\<exists>data doc new_pdf out. fs input_path = Some data \<and> fitz_open E data = Some doc \<and>
         pdf_save E new_pdf = Saved out \<and> fs' = fs(output_path \<mapsto> out) \<and>
         length new_pdf = length doc \<and>
         (\<forall>i<length doc. \<exists>ppm pil rgb img.
             get_pixmap E (doc ! i) (real_of_int dpi / 72 * scale) = Some ppm \<and>
             image_open E ppm = Inr pil \<and>
             (if mode pil \<noteq> ''RGB'' then convert E pil ''RGB'' else Inr pil) = Inr rgb \<and>
             save_jpeg E rgb 85 = Inr img \<and>
             new_pdf ! i =
               \<lparr>np_width = rect_width (doc ! i) * scale,
                np_height = rect_height (doc ! i) * scale,
                np_content =
                  InsertImage (0, 0, rect_width (doc ! i) * scale, rect_height (doc ! i) * scale)
                    img\<rparr>)"
    by blast
next
  assume "compress_pdf_images E fs input_path output_path quality scale = (True, fs')"
  from images_True[OF this] obtain data doc new_pdf out where
    r: "fs input_path = Some data" "fitz_open E data = Some doc"
       "build_pages (images_page E quality scale) 0 doc = Some new_pdf"
       "pdf_save E new_pdf = Saved out" "fs' = fs(output_path \<mapsto> out)"
    by blast
  from build_pages_nth[OF r(3)] have n: "length new_pdf = length doc"
    "\<forall>i<length doc. images_page E quality scale i (doc ! i) = Some (new_pdf ! i)" by auto
  have "\<forall>i<length doc. get_images (doc ! i) \<noteq> [] \<longrightarrow>
            (\<exists>ppm pil rgb img.
               get_pixmap E (doc ! i) scale = Some ppm \<and>
               image_open E ppm = Inr pil \<and>
               (if mode pil \<noteq> ''RGB'' then convert E pil ''RGB'' else Inr pil) = Inr rgb \<and>
               save_jpeg E rgb quality = Inr img \<and>
               new_pdf ! i =
                 \<lparr>np_width = rect_width (doc ! i) * scale,
                  np_height = rect_height (doc ! i) * scale,
                  np_content =
                    InsertImage (0, 0, rect_width (doc ! i) * scale, rect_height (doc ! i) * scale)
                      img\<rparr>)"
  proof (intro allI impI)
    fix i assume "i < length doc" and im: "get_images (doc ! i) \<noteq> []"
    with n(2) have "images_page E quality scale i (doc ! i) = Some (new_pdf ! i)" by simp
    from images_page_raster[OF this im] show "\<exists>ppm pil rgb img.
               get_pixmap E (doc ! i) scale = Some ppm \<and>
               image_open E ppm = Inr pil \<and>
               (if mode pil \<noteq> ''RGB'' then convert E pil ''RGB'' else Inr pil) = Inr rgb \<and>
               save_jpeg E rgb quality = Inr img \<and>
               new_pdf ! i =
                 \<lparr>np_width = rect_width (doc ! i) * scale,
                  np_height = rect_height (doc ! i) * scale,
                  np_content =
                    InsertImage (0, 0, rect_width (doc ! i) * scale, rect_height (doc ! i) * scale)
                      img\<rparr>" .
  qed
  with r n(1) show "\<exists>data doc new_pdf out. fs input_path = Some data \<and> fitz_open E data = Some doc \<and>
         pdf_save E new_pdf = Saved out \<and> fs' = fs(output_path \<mapsto> out) \<and>
         length new_pdf = length doc \<and>
         (\<forall>i<length doc. get_images (doc ! i) \<noteq> [] \<longrightarrow>
            (\<exists>ppm pil rgb img.
               get_pixmap E (doc ! i) scale = Some ppm \<and>
               image_open E ppm = Inr pil \<and>
               (if mode pil \<noteq> ''RGB'' then convert E pil ''RGB'' else Inr pil) = Inr rgb \<and>
               save_jpeg E rgb quality = Inr img \<and>
               new_pdf ! i =
                 \<lparr>np_width = rect_width (doc ! i) * scale,
                  np_height = rect_height (doc ! i) * scale,
                  np_content =
                    InsertImage (0, 0, rect_width (doc ! i) * scale, rect_height (doc ! i) * scale)
                      img\<rparr>))"
    by blast
qed

text \<open>
  On the small engine the one page of \<open>in.pdf\<close>, rendered at 150 DPI and scale 1, has
  20 bytes and its JPEG at quality 85 has 1700; rendered at 50 DPI it has 6 bytes and its
  JPEG, at the same quality, 510. In the image-recompress rebuild at scale 1 it has 10
  bytes and its JPEG at quality 20 has 200.
\<close>

theorem raster_quality_witness:
  "compress_pdf_rendering demo_engine demo_fs ''in.pdf'' ''out.pdf'' 150 1 =
     (True, demo_fs(''out.pdf'' \<mapsto> replicate 1700 0)) \<and>
   compress_pdf_rendering demo_engine demo_fs ''in.pdf'' ''out.pdf'' 50 1 =
     (True, demo_fs(''out.pdf'' \<mapsto> replicate 510 0)) \<and>
   compress_pdf_images demo_engine demo_fs ''in.pdf'' ''out.pdf'' 20 1 =
     (True, demo_fs(''out.pdf'' \<mapsto> replicate 200 0)) \<and>
   get_pixmap demo_engine (demo_page 70) (real_of_int 150 / 72 * 1) = Some (replicate 20 1) \<and>
   save_jpeg demo_engine \<lparr>mode = ''RGB'', width = 20, height = 1, pixels = replicate 20 1\<rparr> 85 =
     Inr (replicate 1700 0) \<and>
   (\<exists>data doc new_pdf out. demo_fs ''in.pdf'' = Some data \<and>
      fitz_open demo_engine data = Some doc \<and>
      pdf_save demo_engine new_pdf = Saved out \<and>
      demo_fs(''out.pdf'' \<mapsto> replicate 1700 0) = demo_fs(''out.pdf'' \<mapsto> out) \<and>
      length new_pdf = length doc \<and>
      (\<forall>i<length doc. \<exists>ppm pil rgb img.
          get_pixmap demo_engine (doc ! i) (real_of_int 150 / 72 * 1) = Some ppm \<and>
          image_open demo_engine ppm = Inr pil \<and>
          (if mode pil \<noteq> ''RGB'' then convert demo_engine pil ''RGB'' else Inr pil) = Inr rgb \<and>
          save_jpeg demo_engine rgb 85 = Inr img \<and>
          new_pdf ! i =
            \<lparr>np_width = rect_width (doc ! i) * 1, np_height = rect_height (doc ! i) * 1,
             np_content =
               InsertImage (0, 0, rect_width (doc ! i) * 1, rect_height (doc ! i) * 1) img\<rparr>)) \<and>
   (\<exists>data doc new_pdf out. demo_fs ''in.pdf'' = Some data \<and>
      fitz_open demo_engine data = Some doc \<and>
      pdf_save demo_engine new_pdf = Saved out \<and>
      demo_fs(''out.pdf'' \<mapsto> replicate 200 0) = demo_fs(''out.pdf'' \<mapsto> out) \<and>
      length new_pdf = length doc \<and>
      (\<forall>i<length doc. get_images (doc ! i) \<noteq> [] \<longrightarrow>
         (\<exists>ppm pil rgb img.
            get_pixmap demo_engine (doc ! i) 1 = Some ppm \<and>
            image_open demo_engine ppm = Inr pil \<and>
            (if mode pil \<noteq> ''RGB'' then convert demo_engine pil ''RGB'' else Inr pil) = Inr rgb \<and>
            save_jpeg demo_engine rgb 20 = Inr img \<and>
            new_pdf ! i =
              \<lparr>np_width = rect_width (doc ! i) * 1, np_height = rect_height (doc ! i) * 1,
               np_content =
                 InsertImage (0, 0, rect_width (doc ! i) * 1, rect_height (doc ! i) * 1) img\<rparr>)))"
proof -
  have i: "demo_fs ''in.pdf'' = Some demo_input" by (simp add: demo_fs_def)
  have h1: "compress_pdf_rendering demo_engine demo_fs ''in.pdf'' ''out.pdf'' 150 1 =
             (True, demo_fs(''out.pdf'' \<mapsto> replicate 1700 0))"
    by (simp add: demo_rendering i)
  have h2: "compress_pdf_rendering demo_engine demo_fs ''in.pdf'' ''out.pdf'' 50 1 =
             (True, demo_fs(''out.pdf'' \<mapsto> replicate 510 0))"
    by (simp add: demo_rendering i)
  have h3: "compress_pdf_images demo_engine demo_fs ''in.pdf'' ''out.pdf'' 20 1 =
             (True, demo_fs(''out.pdf'' \<mapsto> replicate 200 0))"
    by (simp add: demo_images i)
  have p: "get_pixmap demo_engine (demo_page 70) (real_of_int 150 / 72 * 1) = Some (replicate 20 1)"
    by (simp add: demo_engine_sel)
  have j: "save_jpeg demo_engine \<lparr>mode = ''RGB'', width = 20, height = 1, pixels = replicate 20 1\<rparr> 85 =
     Inr (replicate 1700 0)"
    by (simp add: demo_engine_sel)
  note t = raster_quality[where E = demo_engine and fs = demo_fs and input_path = "''in.pdf''"
      and output_path = "''out.pdf''" and scale = 1]
  note t1 = t[where dpi = 150 and fs' = "demo_fs(''out.pdf'' \<mapsto> replicate 1700 0)",
      THEN conjunct1, THEN mp, OF h1]
  note t2 = t[where quality = 20 and fs' = "demo_fs(''out.pdf'' \<mapsto> replicate 200 0)",
      THEN conjunct2, THEN mp, OF h3]
  from h1 h2 h3 p j t1 t2 show ?thesis by blast
qed

text \<open>
  C8. In a completed image-recompress rebuild (\<open>compress_pdf_images\<close> returned
  \<open>True\<close>), every page of the source without embedded images becomes a page whose width
  and height are the original's multiplied by \<open>scale\<close> and whose content is the original
  page shown by \<open>show_pdf_page\<close> (not an inserted raster); width and height keep their
  proportion.
\<close>

theorem imageless_page_transcluded:
  assumes "compress_pdf_images E fs input_path output_path quality scale = (True, fs')"
  shows "\<exists>data doc new_pdf out. fs input_path = Some data \<and> fitz_open E data = Some doc \<and>
         pdf_save E new_pdf = Saved out \<and> fs' = fs(output_path \<mapsto> out) \<and>
         length new_pdf = length doc \<and>
         (\<forall>i<length doc. get_images (doc ! i) = [] \<longrightarrow>
            new_pdf ! i =
              \<lparr>np_width = rect_width (doc ! i) * scale,
               np_height = rect_height (doc ! i) * scale,
               np_content =
                 ShowPdfPage (0, 0, rect_width (doc ! i) * scale, rect_height (doc ! i) * scale) i\<rparr> \<and>
            np_width (new_pdf ! i) * rect_height (doc ! i) =
              np_height (new_pdf ! i) * rect_width (doc ! i))"
proof -
  from images_True[OF assms] obtain data doc new_pdf out where
    r: "fs input_path = Some data" "fitz_open E data = Some doc"
       "build_pages (images_page E quality scale) 0 doc = Some new_pdf"
       "pdf_save E new_pdf = Saved out" "fs' = fs(output_path \<mapsto> out)"
    by blast
  from build_pages_nth[OF r(3)] have n: "length new_pdf = length doc"
    "\<forall>i<length doc. images_page E quality scale i (doc ! i) = Some (new_pdf ! i)" by auto
  have "\<forall>i<length doc. get_images (doc ! i) = [] \<longrightarrow>
            new_pdf ! i =
              \<lparr>np_width = rect_width (doc ! i) * scale,
               np_height = rect_height (doc ! i) * scale,
               np_content =
                 ShowPdfPage (0, 0, rect_width (doc ! i) * scale, rect_height (doc ! i) * scale) i\<rparr> \<and>
            np_width (new_pdf ! i) * rect_height (doc ! i) =
              np_height (new_pdf ! i) * rect_width (doc ! i)"
  proof (intro allI impI)
    fix i assume "i < length doc" and im: "get_images (doc ! i) = []"
    with n(2) have "images_page E quality scale i (doc ! i) = Some (new_pdf ! i)" by simp
    from images_page_transcluded[OF this im] show "new_pdf ! i =
              \<lparr>np_width = rect_width (doc ! i) * scale,
               np_height = rect_height (doc ! i) * scale,
               np_content =
                 ShowPdfPage (0, 0, rect_width (doc ! i) * scale, rect_height (doc ! i) * scale) i\<rparr> \<and>
            np_width (new_pdf ! i) * rect_height (doc ! i) =
              np_height (new_pdf ! i) * rect_width (doc ! i)"
      by simp
  qed
  with r n(1) show ?thesis by blast
qed

theorem imageless_page_transcluded_witness:
  "compress_pdf_images demo_engine [''mixed.pdf'' \<mapsto> [0, 70]] ''mixed.pdf'' ''out.pdf'' 85 (1 / 2) =
     (True, [''mixed.pdf'' \<mapsto> [0, 70], ''out.pdf'' \<mapsto> 0 # replicate 425 0]) \<and>
   fitz_open demo_engine [0, 70] = Some [demo_page 0, demo_page 70] \<and>
   get_images (demo_page 0) = [] \<and>
   build_pages (images_page demo_engine 85 (1 / 2)) 0 [demo_page 0, demo_page 70] =
     Some [\<lparr>np_width = 50, np_height = 50, np_content = ShowPdfPage (0, 0, 50, 50) 0\<rparr>,
           \<lparr>np_width = 50, np_height = 50,
            np_content = InsertImage (0, 0, 50, 50) (replicate 425 0)\<rparr>] \<and>
   (\<exists>data doc new_pdf out. [''mixed.pdf'' \<mapsto> [0, 70 :: byte]] ''mixed.pdf'' = Some data \<and>
      fitz_open demo_engine data = Some doc \<and> pdf_save demo_engine new_pdf = Saved out \<and>
      length new_pdf = length doc)"
proof -
  from imageless_page_transcluded[OF demo_mixed_run]
  have "\<exists>data doc new_pdf out. [''mixed.pdf'' \<mapsto> [0, 70 :: byte]] ''mixed.pdf'' = Some data \<and>
      fitz_open demo_engine data = Some doc \<and> pdf_save demo_engine new_pdf = Saved out \<and>
      length new_pdf = length doc"
    by blast
  moreover have "get_images (demo_page 0) = []" by (simp add: demo_page_def)
  ultimately show ?thesis
    using demo_mixed_run demo_open_pages(3) demo_mixed_pages by blast
qed


section \<open>Properties of the analyzer\<close>

lemma scan_pages_no_images:
  "\<forall>p\<in>set doc. get_images p = [] \<Longrightarrow> total_image_area (scan_pages doc t) = total_image_area t"
  by (induction doc arbitrary: t) (simp_all add: Let_def)

text \<open>
  C10. For every document that \<open>analyze_pdf\<close> can open and whose total image pixel
  area is zero, in particular every document without embedded images, the analysis has
  \<open>image_heavy = False\<close>, \<open>text_heavy = False\<close> and \<open>average_dpi = 0\<close>: the
  classification of lines 86 to 90 is skipped.
\<close>

theorem analyze_pdf_no_image_area:
  assumes "fs file_path = Some data" "fitz_open E data = Some doc"
    and "total_image_area (scan_pages doc totals0) = 0 \<or> (\<forall>p\<in>set doc. get_images p = [])"
  shows "\<exists>a. analyze_pdf E fs file_path = Analysis a \<and>
             image_heavy a = False \<and> text_heavy a = False \<and> average_dpi a = 0"
proof -
  have "total_image_area (scan_pages doc totals0) = 0"
    using assms(3) scan_pages_no_images[of doc totals0] by (auto simp: totals0_def)
  then show ?thesis using assms(1,2) by (simp add: analyze_pdf_def Let_def)
qed

theorem analyze_pdf_no_image_area_witness:
  "[''text.pdf'' \<mapsto> [0::byte]] ''text.pdf'' = Some [0] \<and>
   fitz_open demo_engine [0] = Some [demo_page 0] \<and>
   total_image_area (scan_pages [demo_page 0] totals0) = 0 \<and>
   analyze_pdf demo_engine [''text.pdf'' \<mapsto> [0]] ''text.pdf'' =
     Analysis \<lparr>page_count = 1, total_images = 0, image_sizes = [], text_heavy = False,
               image_heavy = False, average_dpi = 0, file_size = 1\<rparr>"
  using analyze_pdf_no_image_area[of "[''text.pdf'' \<mapsto> [0]]" "''text.pdf''" "[0]" demo_engine "[demo_page 0]"]
  by (simp add: demo_open_pages analyze_pdf_def demo_page_def totals0_def Let_def)

text \<open>
  What lines 87 to 90 compute when both totals are positive: the image area is divided by
  the total page area times the number of pages.
\<close>

lemma analyze_pdf_ratio:
  assumes "fs file_path = Some data" "fitz_open E data = Some doc"
    and "total_image_area (scan_pages doc totals0) > 0"
    and "total_page_area (scan_pages doc totals0) > 0"
  shows "\<exists>a. analyze_pdf E fs file_path = Analysis a \<and>
     (image_heavy a \<longleftrightarrow>
        real_of_int (total_image_area (scan_pages doc totals0)) /
          (total_page_area (scan_pages doc totals0) * real (length doc)) > 0.3) \<and>
     (text_heavy a \<longleftrightarrow>
        real_of_int (total_image_area (scan_pages doc totals0)) /
          (total_page_area (scan_pages doc totals0) * real (length doc)) < 0.1)"
  using assms by (simp add: analyze_pdf_def Let_def image_ratio_def)

text \<open>
  C7 does not hold on the code. A document of two pages of 100 by 100 points, each with one
  image of 70 by 70 pixels, has image area 9800 and page area 20000, a ratio of 0.49; the
  code divides by the page count once more, gets 0.245, and reports
  \<open>image_heavy = False\<close>.
\<close>

theorem analyze_pdf_two_pages:
  "analyze_pdf demo_engine [''scan.pdf'' \<mapsto> [70, 70]] ''scan.pdf'' =
     Analysis \<lparr>page_count = 2, total_images = 2, image_sizes = [1, 1], text_heavy = False,
               image_heavy = False, average_dpi = 140 / 17, file_size = 2\<rparr> \<and>
   total_image_area (scan_pages (map demo_page [70, 70]) totals0) = 9800 \<and>
   total_page_area (scan_pages (map demo_page [70, 70]) totals0) = 20000 \<and>
   (9800 :: real) / 20000 > 0.3"
  by (simp add: demo_open_pages analyze_pdf_def demo_page_def totals0_def Let_def image_ratio_def)

text \<open>
  C9, as stated, fails on the dictionary \<open>analyze_pdf\<close> returns for a file it cannot
  open: the label is \<open>basic\<close>, a fifth one.
\<close>

theorem recommend_strategy_error_label:
  "recommend_strategy AnalysisError = ''basic'' \<and> ''basic'' \<notin> strategy_labels"
  by (simp add: recommend_strategy_def strategy_labels_def)

text \<open>
  C9, amended. For every analysis without an \<open>error\<close> entry, \<open>recommend_strategy\<close>
  returns one of the four labels \<open>aggressive_image_compression\<close>,
  \<open>moderate_image_compression\<close>, \<open>dpi_reduction\<close> and \<open>balanced\<close>, and the label
  depends only on \<open>image_heavy\<close>, \<open>text_heavy\<close> and whether \<open>average_dpi > 200\<close>.
  For a dictionary with an \<open>error\<close> entry it returns \<open>basic\<close>.
\<close>

theorem recommend_strategy_lookup:
  "recommend_strategy (Analysis a) \<in> strategy_labels \<and>
   (image_heavy a = image_heavy b \<and> text_heavy a = text_heavy b \<and>
    (average_dpi a > 200) = (average_dpi b > 200)
    \<longrightarrow> recommend_strategy (Analysis a) = recommend_strategy (Analysis b)) \<and>
   recommend_strategy AnalysisError = ''basic''"
  by (simp add: recommend_strategy_def strategy_labels_def)

theorem recommend_strategy_lookup_witness:
  "recommend_strategy
     (Analysis \<lparr>page_count = 1, total_images = 1, image_sizes = [10], text_heavy = False,
                image_heavy = True, average_dpi = 300, file_size = 100\<rparr>) =
     ''aggressive_image_compression'' \<and>
   recommend_strategy
     (Analysis \<lparr>page_count = 7, total_images = 9, image_sizes = [], text_heavy = False,
                image_heavy = True, average_dpi = 201, file_size = 5\<rparr>) =
     ''aggressive_image_compression'' \<and>
   ''aggressive_image_compression'' \<in> strategy_labels"
  using recommend_strategy_lookup[of
      "\<lparr>page_count = 1, total_images = 1, image_sizes = [10], text_heavy = False,
        image_heavy = True, average_dpi = 300, file_size = 100\<rparr>"
      "\<lparr>page_count = 7, total_images = 9, image_sizes = [], text_heavy = False,
        image_heavy = True, average_dpi = 201, file_size = 5\<rparr>"]
  by (simp add: recommend_strategy_def)

end
